theory Spec2Isabelle
  imports Complex_Main
begin

section \<open>JavaScript values used by the components\<close>

text \<open>
  An optional string property (\<^verbatim>\<open>imageData?: string\<close>) is a \<open>string option\<close>; the
  source tests such values by truthiness, which is false for \<^verbatim>\<open>undefined\<close> and for the
  empty string.
\<close>

definition truthy :: "string option \<Rightarrow> bool" where
  "truthy v = (case v of None \<Rightarrow> False | Some s \<Rightarrow> s \<noteq> [])"

text \<open>\<^verbatim>\<open>a || b\<close> on strings: the first operand unless it is empty.\<close>

definition or_else :: "string \<Rightarrow> string \<Rightarrow> string" where
  "or_else a b = (if a \<noteq> [] then a else b)"

text \<open>\<^verbatim>\<open>xs.slice(-n)\<close>: the last \<open>n\<close> elements, all of them when there are fewer.\<close>

definition slice_last :: "nat \<Rightarrow> 'a list \<Rightarrow> 'a list" where
  "slice_last n xs = drop (length xs - n) xs"

text \<open>
  \<^verbatim>\<open>updated[updated.length - 1] = f(updated[updated.length - 1])\<close> on a copy of the array.
  On an empty array the index is \<open>-1\<close>: JavaScript stores the value under the property
  name \<^verbatim>\<open>"-1"\<close>, which is no element of the array, so the list of elements stays empty.
\<close>

definition update_last :: "('a \<Rightarrow> 'a) \<Rightarrow> 'a list \<Rightarrow> 'a list" where
  "update_last f xs = (if xs = [] then [] else butlast xs @ [f (last xs)])"

text \<open>\<^verbatim>\<open>s.split('\n')\<close>, here for any separator character.\<close>

fun split_on :: "char \<Rightarrow> string \<Rightarrow> string list" where
  "split_on c [] = [[]]"
| "split_on c (x # xs) =
     (if x = c then [] # split_on c xs
      else (case split_on c xs of
              [] \<Rightarrow> [[x]]
            | l # ls \<Rightarrow> (x # l) # ls))"

definition starts_with :: "string \<Rightarrow> string \<Rightarrow> bool" where
  "starts_with p s = (take (length p) s = p)"

text \<open>Decimal rendering of a number inside a template string.\<close>

definition digit_char :: "nat \<Rightarrow> char" where
  "digit_char d = ''0123456789'' ! d"

fun string_of_nat :: "nat \<Rightarrow> string" where
  "string_of_nat n =
     (if n < 10 then [digit_char n]
      else string_of_nat (n div 10) @ [digit_char (n mod 10)])"

declare string_of_nat.simps [simp del]

section \<open>The completion client (lib/gemini.ts)\<close>

datatype role = User | Assistant

text \<open>
  The \<^verbatim>\<open>Message\<close> interface of the chat component. The client reads \<open>role\<close>,
  \<open>content\<close> and \<open>imageData\<close> only. \<open>isStreaming\<close> is optional in the source:
  user messages are built without it.
\<close>

record message =
  role :: role
  content :: string
  imageData :: "string option"
  isStreaming :: "bool option"

text \<open>\<^verbatim>\<open>m.isStreaming\<close> used as a condition.\<close>

definition streaming :: "message \<Rightarrow> bool" where
  "streaming m = (isStreaming m = Some True)"

datatype content_part = TextPart string | ImageUrlPart string

datatype body_content = Plain string | Parts "content_part list"

record req_message =
  req_role :: role
  req_content :: body_content

record request =
  model :: string
  req_messages :: "req_message list"
  max_tokens :: nat
  stream :: bool

text \<open>
  What the network does during one call. A rejected promise or a thrown error is
  represented by its message. A response has its status, the outcome of
  \<^verbatim>\<open>response.text()\<close> and its body. The body reader is a finite script of
  reads, each value given as the text the decoder makes of it; after the last one the
  reader reports \<open>done\<close>.
\<close>

datatype read_result = ReadValue string | ReadError string

datatype response_body = NoBody | Body "read_result list"

datatype fetch_result =
    FetchRejected string
  | Response nat "string + string" response_body

record env =
  apiKey :: "string option"
  fetch :: fetch_result

text \<open>
  \<^verbatim>\<open>JSON.parse(data)\<close> followed by \<^verbatim>\<open>parsed.choices?.[0]?.delta?.content\<close> is a
  parameter \<open>delta\<close> of the model: \<open>None\<close> when parsing or the property access
  throws or the property is absent, \<open>Some t\<close> when the content is the string \<open>t\<close>.
\<close>

type_synonym delta_parser = "string \<Rightarrow> string option"

definition MODEL_WITH_VISION :: string where
  "MODEL_WITH_VISION = ''openai/gpt-4o-mini''"

definition MODEL_TEXT_ONLY :: string where
  "MODEL_TEXT_ONLY = ''openai/gpt-4o-mini''"

definition data_url :: "string \<Rightarrow> string" where
  "data_url d = ''data:image/png;base64,'' @ d"

definition encode_history :: "message \<Rightarrow> req_message" where
  "encode_history msg =
     (case imageData msg of
        None \<Rightarrow> \<lparr>req_role = role msg, req_content = Plain (content msg)\<rparr>
      | Some d \<Rightarrow>
          if d \<noteq> [] then
            \<lparr>req_role = role msg,
             req_content = Parts [TextPart (content msg), ImageUrlPart (data_url d)]\<rparr>
          else \<lparr>req_role = role msg, req_content = Plain (content msg)\<rparr>)"

definition encode_current :: "string \<Rightarrow> string option \<Rightarrow> req_message" where
  "encode_current prompt imageBase64 =
     (case imageBase64 of
        None \<Rightarrow> \<lparr>req_role = User, req_content = Plain prompt\<rparr>
      | Some d \<Rightarrow>
          if d \<noteq> [] then
            \<lparr>req_role = User,
             req_content = Parts [TextPart prompt, ImageUrlPart (data_url d)]\<rparr>
          else \<lparr>req_role = User, req_content = Plain prompt\<rparr>)"

definition build_request :: "string \<Rightarrow> string option \<Rightarrow> message list \<Rightarrow> request" where
  "build_request prompt imageBase64 chatHistory =
     \<lparr>model = (if truthy imageBase64 then MODEL_WITH_VISION else MODEL_TEXT_ONLY),
      req_messages =
        map encode_history (slice_last 10 chatHistory) @ [encode_current prompt imageBase64],
      max_tokens = 2048,
      stream = True\<rparr>"

text \<open>The inner loop over the lines of one decoded read: the texts handed to \<open>onChunk\<close>.\<close>

fun process_lines :: "delta_parser \<Rightarrow> string list \<Rightarrow> string list" where
  "process_lines delta [] = []"
| "process_lines delta (line # rest) =
     (if starts_with ''data: '' line then
        (let d = drop 6 line in
         if d = ''[DONE]'' then process_lines delta rest
         else (case delta d of
                 None \<Rightarrow> process_lines delta rest
               | Some t \<Rightarrow>
                   if t \<noteq> [] then t # process_lines delta rest
                   else process_lines delta rest))
      else process_lines delta rest)"

text \<open>The text the outer \<^verbatim>\<open>catch\<close> hands to \<open>onChunk\<close>.\<close>

definition caught_text :: "string \<Rightarrow> string" where
  "caught_text e = CHR 0x0A # ''Error: '' @ e"

text \<open>The \<^verbatim>\<open>while (true)\<close> loop over the reader; a failing read leaves it through the
  outer \<^verbatim>\<open>catch\<close>.\<close>

fun read_loop :: "delta_parser \<Rightarrow> read_result list \<Rightarrow> string list" where
  "read_loop delta [] = []"
| "read_loop delta (ReadValue v # rs) =
     process_lines delta (split_on (CHR 0x0A) v) @ read_loop delta rs"
| "read_loop delta (ReadError e # rs) = [caught_text e]"

definition key_missing :: "string option \<Rightarrow> bool" where
  "key_missing k = (\<not> truthy k \<or> k = Some ''your_openrouter_api_key_here'')"

definition key_error_text :: string where
  "key_error_text =
     ''Error: Please set NEXT_PUBLIC_OPENROUTER_API_KEY in .env.local''
     @ [CHR 0x0A, CHR 0x0A] @ ''Get key at: https://openrouter.ai/keys''"

text \<open>\<^verbatim>\<open>response.ok\<close>: the status is in the range 200 to 299.\<close>

definition response_ok :: "nat \<Rightarrow> bool" where
  "response_ok st = (200 \<le> st \<and> st \<le> 299)"

text \<open>
  The result of one call: the request handed to \<open>fetch\<close> (if the call got that far), the
  arguments of the \<open>onChunk\<close> calls in order, and the error of a rejected promise.
\<close>

record stream_result =
  sr_request :: "request option"
  sr_chunks :: "string list"
  sr_thrown :: "string option"

definition streamFromGemini ::
  "delta_parser \<Rightarrow> env \<Rightarrow> string \<Rightarrow> string option \<Rightarrow> message list \<Rightarrow> stream_result" where
  "streamFromGemini delta e prompt imageBase64 chatHistory =
     (if key_missing (apiKey e) then
        \<lparr>sr_request = None, sr_chunks = [key_error_text], sr_thrown = None\<rparr>
      else
        \<lparr>sr_request = Some (build_request prompt imageBase64 chatHistory),
         sr_chunks =
           (case fetch e of
              FetchRejected err \<Rightarrow> [caught_text err]
            | Response st errorData body \<Rightarrow>
                if \<not> response_ok st then
                  (case errorData of
                     Inl err \<Rightarrow> [caught_text err]
                   | Inr txt \<Rightarrow> [''Error: '' @ string_of_nat st @ '' - '' @ txt])
                else
                  (case body of
                     NoBody \<Rightarrow> [''Error: No response stream'']
                   | Body reads \<Rightarrow> read_loop delta reads)),
         sr_thrown = None\<rparr>)"

section \<open>The chat component (components/GeminiChat.tsx)\<close>

text \<open>
  The component's state hooks, the \<open>messagesRef\<close> ref, and the entry of
  \<open>localStorage\<close> under \<^verbatim>\<open>STORAGE_KEY\<close> (\<open>None\<close> when the key is absent). The
  stored JSON text is represented by the message list it encodes.
\<close>

record chat_state =
  messages :: "message list"
  input :: string
  isLoading :: bool
  pendingImage :: "string option"
  messagesRef :: "message list"
  storage :: "message list option"

text \<open>The effect that runs after every change of \<open>messages\<close>.\<close>

definition sync_effect :: "chat_state \<Rightarrow> chat_state" where
  "sync_effect s =
     (let toSave = filter (\<lambda>m. \<not> streaming m) (messages s) in
      s\<lparr>messagesRef := messages s,
        storage := (if length toSave > 0 then Some toSave else storage s)\<rparr>)"

text \<open>\<^verbatim>\<open>setMessages(prev => f(prev))\<close>, the render and its effect.\<close>

definition setMessages :: "(message list \<Rightarrow> message list) \<Rightarrow> chat_state \<Rightarrow> chat_state" where
  "setMessages f s = sync_effect (s\<lparr>messages := f (messages s)\<rparr>)"

text \<open>A fresh component instance over the given storage, after the loading effect.\<close>

definition mount :: "message list option \<Rightarrow> chat_state" where
  "mount saved =
     setMessages (\<lambda>prev. case saved of None \<Rightarrow> prev | Some parsed \<Rightarrow> parsed)
       \<lparr>messages = [], input = [], isLoading = False, pendingImage = None,
        messagesRef = [], storage = saved\<rparr>"

definition userMessage :: "string \<Rightarrow> string option \<Rightarrow> message" where
  "userMessage messageText imageToSend =
     \<lparr>role = User, content = or_else messageText ''Analyze this image'',
      imageData = imageToSend, isStreaming = None\<rparr>"

definition assistantMessage :: message where
  "assistantMessage = \<lparr>role = Assistant, content = [], imageData = None, isStreaming = Some True\<rparr>"

text \<open>The synchronous part of \<open>handleSend\<close> after its guard, up to the call of the client.\<close>

definition send_begin :: "string \<Rightarrow> string option \<Rightarrow> chat_state \<Rightarrow> chat_state" where
  "send_begin messageText imageToSend s =
     setMessages (\<lambda>prev. prev @ [assistantMessage])
       ((setMessages (\<lambda>prev. prev @ [userMessage messageText imageToSend]) s)
          \<lparr>input := [], isLoading := True, pendingImage := None\<rparr>)"

text \<open>The \<open>onChunk\<close> callback, given the value of \<open>fullResponse\<close> after its update.\<close>

definition on_chunk :: "string \<Rightarrow> chat_state \<Rightarrow> chat_state" where
  "on_chunk fullResponse s =
     setMessages (update_last (\<lambda>m. m\<lparr>content := fullResponse\<rparr>)) s"

fun deliver :: "string \<Rightarrow> string list \<Rightarrow> chat_state \<Rightarrow> chat_state" where
  "deliver fullResponse [] s = s"
| "deliver fullResponse (chunk # rest) s =
     deliver (fullResponse @ chunk) rest (on_chunk (fullResponse @ chunk) s)"

definition send_complete :: "chat_state \<Rightarrow> chat_state" where
  "send_complete s =
     (setMessages (update_last (\<lambda>m. m\<lparr>isStreaming := Some False\<rparr>)) s)\<lparr>isLoading := False\<rparr>"

definition send_failed :: "string \<Rightarrow> chat_state \<Rightarrow> chat_state" where
  "send_failed err s =
     (setMessages
        (update_last (\<lambda>m. \<lparr>role = Assistant, content = ''Error: '' @ err,
                           imageData = None, isStreaming = Some False\<rparr>)) s)
       \<lparr>isLoading := False\<rparr>"

text \<open>
  \<open>handleSend\<close>, run from its call to the end with nothing else happening in between.
  The result is the new state and the request handed to \<open>fetch\<close>, if any.
\<close>

definition handleSend ::
  "delta_parser \<Rightarrow> env \<Rightarrow> chat_state \<Rightarrow> string \<Rightarrow> string option \<Rightarrow> chat_state \<times> request option" where
  "handleSend delta e s messageText imageToSend =
     (if messageText = [] \<and> \<not> truthy imageToSend then (s, None)
      else
        (let currentHistory = filter (\<lambda>m. \<not> streaming m) (messagesRef s);
             s1 = send_begin messageText imageToSend s;
             r = streamFromGemini delta e (or_else messageText ''Analyze this image.'')
                   imageToSend currentHistory;
             s2 = deliver [] (sr_chunks r) s1
         in (case sr_thrown r of
               None \<Rightarrow> (send_complete s2, sr_request r)
             | Some err \<Rightarrow> (send_failed err s2, sr_request r))))"

text \<open>\<^verbatim>\<open>String.prototype.trim\<close> removes white space and line terminators at both ends.
  The strings of this model are byte strings; the white space below is the part of
  the JavaScript set within them.\<close>

definition is_space :: "char \<Rightarrow> bool" where
  "is_space c = (c \<in> set [CHR 0x09, CHR 0x0A, CHR 0x0B, CHR 0x0C, CHR 0x0D, CHR 0x20])"

definition trim :: "string \<Rightarrow> string" where
  "trim s = rev (dropWhile is_space (rev (dropWhile is_space s)))"

definition handleManualSend ::
  "delta_parser \<Rightarrow> env \<Rightarrow> chat_state \<Rightarrow> chat_state \<times> request option" where
  "handleManualSend delta e s =
     (let txt = trim (input s) in
      if txt \<noteq> [] \<or> truthy (pendingImage s)
      then handleSend delta e s (or_else txt ''Analyze this image'') (pendingImage s)
      else (s, None))"

definition handleClear :: "chat_state \<Rightarrow> chat_state" where
  "handleClear s = setMessages (\<lambda>prev. []) (s\<lparr>pendingImage := None, storage := None\<rparr>)"

subsection \<open>Sends that overlap with other events\<close>

text \<open>
  \<open>handleSend\<close> is asynchronous: between its synchronous part, the calls of
  \<open>onChunk\<close> and its completion, other handlers may run. A session is the component
  state together with the \<open>fullResponse\<close> variables of the sends still in flight.
  \<open>Reload\<close> is a page load: a new component instance over the same storage, the old
  instance and its streams being gone.
\<close>

record session =
  chat :: chat_state
  inflight :: "string list"

datatype event =
    Reload
  | Send string "string option"
  | Chunk nat string
  | Settle nat
  | Clear

fun apply_event :: "session \<Rightarrow> event \<Rightarrow> session" where
  "apply_event z Reload = \<lparr>chat = mount (storage (chat z)), inflight = []\<rparr>"
| "apply_event z (Send messageText imageToSend) =
     (if messageText = [] \<and> \<not> truthy imageToSend then z
      else \<lparr>chat = send_begin messageText imageToSend (chat z),
            inflight = inflight z @ [[]]\<rparr>)"
| "apply_event z (Chunk i chunk) =
     (if i < length (inflight z) then
        (let fullResponse = inflight z ! i @ chunk in
         \<lparr>chat = on_chunk fullResponse (chat z),
          inflight = (inflight z)[i := fullResponse]\<rparr>)
      else z)"
| "apply_event z (Settle i) =
     (if i < length (inflight z) then
        \<lparr>chat = send_complete (chat z),
         inflight = take i (inflight z) @ drop (Suc i) (inflight z)\<rparr>
      else z)"
| "apply_event z Clear = z\<lparr>chat := handleClear (chat z)\<rparr>"

fun run :: "session \<Rightarrow> event list \<Rightarrow> session" where
  "run z [] = z"
| "run z (ev # evs) = run (apply_event z ev) evs"

definition first_visit :: session where
  "first_visit = \<lparr>chat = mount None, inflight = []\<rparr>"

text \<open>
  The events of one send, in order, given the chunks its stream hands to the callback:
  its start, one event for each chunk, its completion. \<open>n\<close> is the position the send
  takes among the sends in flight.
\<close>

definition send_trace :: "nat \<Rightarrow> string \<Rightarrow> string option \<Rightarrow> string list \<Rightarrow> event list" where
  "send_trace n messageText imageToSend cs =
     Send messageText imageToSend # map (Chunk n) cs @ [Settle n]"

text \<open>
  A send that runs from its start to its completion with no other event in between:
  no clear, no page load, and no start, chunk or completion of another send. The chunks
  are those the client delivers for the history read at the start.
\<close>

definition undisturbed_send ::
  "delta_parser \<Rightarrow> env \<Rightarrow> session \<Rightarrow> string \<Rightarrow> string option \<Rightarrow> session" where
  "undisturbed_send delta e z messageText imageToSend =
     run z (send_trace (length (inflight z)) messageText imageToSend
       (sr_chunks (streamFromGemini delta e (or_else messageText ''Analyze this image.'')
          imageToSend (filter (\<lambda>m. \<not> streaming m) (messagesRef (chat z))))))"

text \<open>
  The discipline of the input box, which is disabled while \<open>isLoading\<close> holds: every
  send of the trace starts in a state where \<open>isLoading\<close> is false.
\<close>

fun sends_when_idle :: "session \<Rightarrow> event list \<Rightarrow> bool" where
  "sends_when_idle z [] = True"
| "sends_when_idle z (ev # evs) =
     ((case ev of Send messageText imageToSend \<Rightarrow> \<not> isLoading (chat z) | _ \<Rightarrow> True)
      \<and> sends_when_idle (apply_event z ev) evs)"

text \<open>Messages before the last one that are streaming.\<close>

definition streaming_before_last :: "message list \<Rightarrow> message list" where
  "streaming_before_last ms = filter streaming (butlast ms)"

text \<open>What the proof of the streaming invariant maintains along a trace.\<close>

definition storage_ok :: "message list option \<Rightarrow> bool" where
  "storage_ok st = (case st of None \<Rightarrow> True | Some p \<Rightarrow> filter streaming p = [])"

definition session_ok :: "session \<Rightarrow> bool" where
  "session_ok z \<longleftrightarrow>
     (isLoading (chat z) \<longleftrightarrow> inflight z \<noteq> []) \<and>
     length (inflight z) \<le> 1 \<and>
     (inflight z = [] \<longrightarrow> filter streaming (messages (chat z)) = []) \<and>
     streaming_before_last (messages (chat z)) = [] \<and>
     storage_ok (storage (chat z))"

subsection \<open>Transport failures\<close>

text \<open>
  \<open>transport_failure delta f partial errorText\<close>: the network behaviour \<open>f\<close> is one
  of the failures of a call (the request is rejected, the status is not a success, the
  response has no stream, a read of the stream fails); \<open>partial\<close> is the text of the
  events received before the failure and \<open>errorText\<close> the message the client builds
  for it.
\<close>

inductive transport_failure ::
  "delta_parser \<Rightarrow> fetch_result \<Rightarrow> string \<Rightarrow> string \<Rightarrow> bool" for delta where
  request_rejected:
    "transport_failure delta (FetchRejected err) [] (caught_text err)"
| bad_status:
    "\<not> response_ok st \<Longrightarrow>
     transport_failure delta (Response st (Inr txt) body) []
       (''Error: '' @ string_of_nat st @ '' - '' @ txt)"
| bad_status_unreadable:
    "\<not> response_ok st \<Longrightarrow>
     transport_failure delta (Response st (Inl err) body) [] (caught_text err)"
| no_stream:
    "response_ok st \<Longrightarrow>
     transport_failure delta (Response st errorData NoBody) [] ''Error: No response stream''"
| read_failed:
    "response_ok st \<Longrightarrow>
     transport_failure delta
       (Response st errorData (Body (map ReadValue vs @ ReadError err # rest)))
       (concat (read_loop delta (map ReadValue vs))) (caught_text err)"

subsection \<open>Example environments\<close>

text \<open>
  A stand-in for the event parser that takes the payload of a \<^verbatim>\<open>data: \<close> line to be
  the text fragment itself.
\<close>

definition payload_is_text :: delta_parser where
  "payload_is_text d = Some d"

text \<open>
  A stand-in for which the payload \<^verbatim>\<open>{\<close> is malformed and every other payload is the
  text fragment itself.
\<close>

definition parse_or_skip :: delta_parser where
  "parse_or_skip d = (if d = ''{'' then None else Some d)"

text \<open>Three events in two reads, each event followed by an empty line, then the end
  marker.\<close>

definition three_chunk_env :: env where
  "three_chunk_env =
     \<lparr>apiKey = Some ''sk-test'',
      fetch = Response 200 (Inr [])
        (Body [ReadValue (''data: Hel'' @ [CHR 0x0A, CHR 0x0A] @ ''data: lo ''
                 @ [CHR 0x0A, CHR 0x0A]),
               ReadValue (''data: world'' @ [CHR 0x0A, CHR 0x0A] @ ''data: [DONE]''
                 @ [CHR 0x0A, CHR 0x0A])])\<rparr>"

definition malformed_event_env :: env where
  "malformed_event_env =
     \<lparr>apiKey = Some ''sk-test'',
      fetch = Response 200 (Inr [])
        (Body [ReadValue ''data: Hel'', ReadValue ''data: {'', ReadValue ''data: lo'',
               ReadValue ''data: [DONE]''])\<rparr>"

definition rejected_env :: env where
  "rejected_env = \<lparr>apiKey = Some ''sk-test'', fetch = FetchRejected ''Failed to fetch''\<rparr>"

definition status_env :: env where
  "status_env = \<lparr>apiKey = Some ''sk-test'', fetch = Response 500 (Inr ''overloaded'') NoBody\<rparr>"

definition broken_stream_env :: env where
  "broken_stream_env =
     \<lparr>apiKey = Some ''sk-test'',
      fetch = Response 200 (Inr [])
        (Body [ReadValue ''data: Hel'', ReadError ''network error'', ReadValue ''data: lo ''])\<rparr>"

definition cleared_while_streaming :: "event list" where
  "cleared_while_streaming =
     [Send ''hi'' None, Chunk 0 ''Hel'', Clear, Chunk 0 ''lo '', Chunk 0 ''world'', Settle 0]"

definition failure_while_overlapping :: "event list" where
  "failure_while_overlapping =
     [Send ''a'' None, Send ''b'' None, Chunk 0 (caught_text ''network error''), Settle 0]"

definition clear_mid_stream :: "event list" where
  "clear_mid_stream =
     [Send ''a'' None, Chunk 0 ''x'', Clear, Chunk 0 ''y'', Settle 0, Reload,
      Send ''b'' None, Chunk 0 ''z'']"

definition numbered_message :: "nat \<Rightarrow> message" where
  "numbered_message i =
     (if even i
      then \<lparr>role = User, content = string_of_nat i, imageData = None, isStreaming = None\<rparr>
      else \<lparr>role = Assistant, content = string_of_nat i, imageData = None,
            isStreaming = Some False\<rparr>)"

definition twelve_turns :: "message list" where
  "twelve_turns =
     map numbered_message
       [0, 1, 2, 3, 4, 5, 6, 7, 8, 9, 10, 11, 12, 13, 14, 15, 16, 17, 18, 19, 20, 21, 22, 23]"

section \<open>The page viewer (components/PDFViewer.tsx)\<close>

subsection \<open>Data\<close>

text \<open>
  Text selected on a page is a JavaScript string with characters outside ASCII: a list
  of UTF-16 code units. Coordinates are JavaScript numbers, taken here as real numbers
  (rounding of the floating-point operations is not modelled).
\<close>

type_synonym ustring = "nat list"

definition ascii :: "string \<Rightarrow> ustring" where
  "ascii s = map of_char s"

datatype selection_type = TextSel | ImageSel | EquationSel | RegionSel

record rect =
  rect_x :: real
  rect_y :: real
  rect_width :: real
  rect_height :: real

record selection =
  sel_type :: selection_type
  sel_content :: ustring
  sel_pageNumber :: nat
  sel_imageData :: "string option"
  sel_rect :: "rect option"

datatype annotation_status = Complete | Incomplete | Pending | Note

text \<open>
  An annotation as it is held in memory and in \<open>localStorage\<close>. The interface requires
  \<open>rect\<close>; records persisted by older versions may lack it, hence the option.
\<close>

record annotation =
  ann_id :: string
  ann_pageNumber :: nat
  ann_rect :: "rect option"
  ann_status :: annotation_status
  ann_note :: "ustring option"
  ann_content :: ustring
  ann_createdAt :: nat

record drag =
  startX :: real
  startY :: real
  endX :: real
  endY :: real
  pageNum :: nat

text \<open>
  The part of the state the handlers below read and write, with the entry of
  \<open>localStorage\<close> under \<^verbatim>\<open>ANNOTATIONS_KEY\<close>.
\<close>

record viewer_state =
  selection :: "selection option"
  isSelecting :: bool
  selectionRect :: "drag option"
  annotations :: "annotation list"
  ann_storage :: "annotation list option"

text \<open>
  The rendered pages: \<open>pageRefs\<close> gives the container of a page, which may hold a
  canvas; \<open>context2d\<close> tells whether a new canvas hands out a 2D context.
\<close>

record canvas =
  canvas_width :: nat
  canvas_height :: nat
  clientWidth :: int
  clientHeight :: int

datatype page_div = PageDiv "canvas option"

record dom =
  pageRefs :: "nat \<Rightarrow> page_div option"
  context2d :: bool

subsection \<open>Text selections and the equation heuristic\<close>

text \<open>
  The regular expression of \<open>handleTextSelection\<close>, with the flag \<open>i\<close>:
  \<^verbatim>\<open>/[S]|[0-9]+[x23]|[a-z]\s*[=+\-*/^]\s*[a-z0-9]/i\<close>, where \<^verbatim>\<open>S\<close> stands for the
  symbols listed in \<open>math_symbols\<close> and \<^verbatim>\<open>23\<close> for the superscript digits two and
  three. Under the flag \<open>i\<close> a character matches a class when its upper-case form is
  that of a member: this adds the capital letters, the capital Greek letters and the
  two symbol variants of beta and pi.
\<close>

definition math_symbols :: "nat list" where
  "math_symbols =
     [0x222B, 0x2211, 0x220F, 0x221A, 0xB1, 0xD7, 0xF7, 0x3D, 0x3C, 0x3E,
      0x2264, 0x2265, 0x2260, 0x221E, 0x3B1, 0x3B2, 0x3B3, 0x3B4, 0x3C0]"

definition math_symbols_ignoring_case :: "nat list" where
  "math_symbols_ignoring_case =
     math_symbols @ [0x391, 0x392, 0x393, 0x394, 0x3A0, 0x3D0, 0x3D6]"

definition is_digit :: "nat \<Rightarrow> bool" where
  "is_digit c = (0x30 \<le> c \<and> c \<le> 0x39)"

definition is_letter :: "nat \<Rightarrow> bool" where
  "is_letter c = ((0x61 \<le> c \<and> c \<le> 0x7A) \<or> (0x41 \<le> c \<and> c \<le> 0x5A))"

definition is_exponent_marker :: "nat \<Rightarrow> bool" where
  "is_exponent_marker c = (c \<in> set [0x78, 0x58, 0xB2, 0xB3])"

definition is_operator :: "nat \<Rightarrow> bool" where
  "is_operator c = (c \<in> set [0x3D, 0x2B, 0x2D, 0x2A, 0x2F, 0x5E])"

text \<open>The class \<^verbatim>\<open>\s\<close>, which is also what \<^verbatim>\<open>trim\<close> removes.\<close>

definition is_white :: "nat \<Rightarrow> bool" where
  "is_white c =
     (c \<in> set [0x09, 0x0A, 0x0B, 0x0C, 0x0D, 0x20, 0xA0, 0x1680, 0x2028, 0x2029,
                0x202F, 0x205F, 0x3000, 0xFEFF]
      \<or> (0x2000 \<le> c \<and> c \<le> 0x200A))"

definition utrim :: "ustring \<Rightarrow> ustring" where
  "utrim s = rev (dropWhile is_white (rev (dropWhile is_white s)))"

text \<open>The three alternatives, matched at the start of a string.\<close>

definition match_symbol :: "ustring \<Rightarrow> bool" where
  "match_symbol s = (case s of [] \<Rightarrow> False | c # rest \<Rightarrow> c \<in> set math_symbols_ignoring_case)"

definition match_power :: "ustring \<Rightarrow> bool" where
  "match_power s =
     (case s of
        [] \<Rightarrow> False
      | c # rest \<Rightarrow>
          is_digit c \<and>
          (case dropWhile is_digit rest of
             [] \<Rightarrow> False
           | m # after \<Rightarrow> is_exponent_marker m))"

definition match_operation :: "ustring \<Rightarrow> bool" where
  "match_operation s =
     (case s of
        [] \<Rightarrow> False
      | c # rest \<Rightarrow>
          is_letter c \<and>
          (case dropWhile is_white rest of
             [] \<Rightarrow> False
           | op # rest2 \<Rightarrow>
               is_operator op \<and>
               (case dropWhile is_white rest2 of
                  [] \<Rightarrow> False
                | a # after \<Rightarrow> is_letter a \<or> is_digit a)))"

text \<open>\<^verbatim>\<open>regex.test(s)\<close>: a match at some position of the string.\<close>

fun isMath :: "ustring \<Rightarrow> bool" where
  "isMath [] = False"
| "isMath (c # rest) =
     (match_symbol (c # rest) \<or> match_power (c # rest) \<or> match_operation (c # rest)
      \<or> isMath rest)"

text \<open>
  A handler returns the new state and the arguments of its calls of
  \<open>onSelectionChange\<close>, in order. The argument of \<open>handleTextSelection\<close> is the value
  of \<^verbatim>\<open>window.getSelection()?.toString()\<close>.
\<close>

definition handleTextSelection ::
  "ustring option \<Rightarrow> viewer_state \<Rightarrow> viewer_state \<times> selection option list" where
  "handleTextSelection selected s =
     (case map_option utrim selected of
        None \<Rightarrow> (s, [])
      | Some selectedText \<Rightarrow>
          if selectedText \<noteq> [] \<and> length selectedText > 0 then
            (let newSelection =
                   \<lparr>sel_type = (if isMath selectedText then EquationSel else TextSel),
                    sel_content = selectedText, sel_pageNumber = 1,
                    sel_imageData = None, sel_rect = None\<rparr>
             in (s\<lparr>selection := Some newSelection\<rparr>, [Some newSelection]))
          else (s, []))"

subsection \<open>Region capture\<close>

text \<open>
  Assigning a number to the \<open>width\<close> or \<open>height\<close> of a canvas converts it to an
  unsigned 32-bit integer: the fraction is dropped.
\<close>

definition to_unsigned_long :: "real \<Rightarrow> nat" where
  "to_unsigned_long v =
     nat ((if 0 \<le> v then \<lfloor>v\<rfloor> else - \<lfloor>- v\<rfloor>) mod 2 ^ 32)"

record draw_image =
  src :: canvas
  sx :: real
  sy :: real
  sw :: real
  sh :: real
  dx :: real
  dy :: real
  dw :: real
  dh :: real

text \<open>The temporary canvas: its pixel dimensions and the one \<open>drawImage\<close> call on it.\<close>

record offscreen =
  off_width :: nat
  off_height :: nat
  off_draw :: draw_image

definition scaleX :: "canvas \<Rightarrow> real" where
  "scaleX cv = real (canvas_width cv) / real_of_int (clientWidth cv)"

definition scaleY :: "canvas \<Rightarrow> real" where
  "scaleY cv = real (canvas_height cv) / real_of_int (clientHeight cv)"

definition drag_width :: "drag \<Rightarrow> real" where
  "drag_width r = \<bar>endX r - startX r\<bar>"

definition drag_height :: "drag \<Rightarrow> real" where
  "drag_height r = \<bar>endY r - startY r\<bar>"

definition capture :: "canvas \<Rightarrow> drag \<Rightarrow> offscreen" where
  "capture cv r =
     (let x = min (startX r) (endX r);
          y = min (startY r) (endY r);
          width = drag_width r;
          height = drag_height r
      in \<lparr>off_width = to_unsigned_long width,
          off_height = to_unsigned_long height,
          off_draw =
            \<lparr>src = cv, sx = x * scaleX cv, sy = y * scaleY cv,
             sw = width * scaleX cv, sh = height * scaleY cv,
             dx = 0, dy = 0, dw = width, dh = height\<rparr>\<rparr>)"

text \<open>\<^verbatim>\<open>url.split(",")[1]\<close>.\<close>

definition after_comma :: "string \<Rightarrow> string option" where
  "after_comma url =
     (case split_on (CHR '','') url of
        a # b # rest \<Rightarrow> Some b
      | _ \<Rightarrow> None)"

text \<open>
  \<open>handleMouseUp\<close>. The encoding of a canvas as a PNG data URL is the parameter
  \<open>toDataURL\<close>.
\<close>

definition handleMouseUp ::
  "(offscreen \<Rightarrow> string) \<Rightarrow> dom \<Rightarrow> viewer_state \<Rightarrow> viewer_state \<times> selection option list" where
  "handleMouseUp toDataURL d s =
     (case selectionRect s of
        None \<Rightarrow> (s, [])
      | Some r \<Rightarrow>
          if \<not> isSelecting s then (s, [])
          else
            (let emitted =
                   (case pageRefs d (pageNum r) of
                      None \<Rightarrow> None
                    | Some (PageDiv None) \<Rightarrow> None
                    | Some (PageDiv (Some cv)) \<Rightarrow>
                        (let x = min (startX r) (endX r);
                             y = min (startY r) (endY r);
                             width = drag_width r;
                             height = drag_height r
                         in if width > 10 \<and> height > 10 then
                              (if context2d d then
                                 Some \<lparr>sel_type = RegionSel,
                                       sel_content =
                                         ascii (''Region from Page '' @ string_of_nat (pageNum r)),
                                       sel_pageNumber = pageNum r,
                                       sel_imageData = after_comma (toDataURL (capture cv r)),
                                       sel_rect = Some \<lparr>rect_x = x, rect_y = y,
                                         rect_width = width, rect_height = height\<rparr>\<rparr>
                               else None)
                            else None));
                 s1 = (case emitted of
                         None \<Rightarrow> s
                       | Some newSelection \<Rightarrow> s\<lparr>selection := Some newSelection\<rparr>)
             in (s1\<lparr>isSelecting := False, selectionRect := None\<rparr>,
                 (case emitted of None \<Rightarrow> [] | Some newSelection \<Rightarrow> [Some newSelection]))))"

subsection \<open>Annotations\<close>

text \<open>The effect that runs after every change of \<open>annotations\<close>.\<close>

definition save_effect :: "viewer_state \<Rightarrow> viewer_state" where
  "save_effect s =
     (if length (annotations s) > 0 then s\<lparr>ann_storage := Some (annotations s)\<rparr> else s)"

definition setAnnotations ::
  "(annotation list \<Rightarrow> annotation list) \<Rightarrow> viewer_state \<Rightarrow> viewer_state" where
  "setAnnotations f s = save_effect (s\<lparr>annotations := f (annotations s)\<rparr>)"

text \<open>A fresh viewer over the given storage, after the loading effect.\<close>

definition viewer_mount :: "annotation list option \<Rightarrow> viewer_state" where
  "viewer_mount saved =
     setAnnotations
       (\<lambda>prev. case saved of
                 None \<Rightarrow> prev
               | Some parsed \<Rightarrow> filter (\<lambda>a. ann_rect a \<noteq> None) parsed)
       \<lparr>selection = None, isSelecting = False, selectionRect = None, annotations = [],
        ann_storage = saved\<rparr>"

text \<open>\<open>addAnnotation\<close>; \<open>now1\<close> and \<open>now2\<close> are the values of its two calls
  of \<^verbatim>\<open>Date.now()\<close>.\<close>

definition addAnnotation ::
  "nat \<Rightarrow> nat \<Rightarrow> annotation_status \<Rightarrow> ustring option \<Rightarrow> viewer_state
     \<Rightarrow> viewer_state \<times> selection option list" where
  "addAnnotation now1 now2 status note_text s =
     (case selection s of
        None \<Rightarrow> (s, [])
      | Some sel \<Rightarrow>
          (case sel_rect sel of
             None \<Rightarrow> (s, [])
           | Some r \<Rightarrow>
               if sel_pageNumber sel \<noteq> 0 then
                 (let newAnnotation =
                        \<lparr>ann_id = string_of_nat now1,
                         ann_pageNumber = sel_pageNumber sel,
                         ann_rect = Some r,
                         ann_status = status,
                         ann_note = note_text,
                         ann_content = sel_content sel,
                         ann_createdAt = now2\<rparr>
                  in ((setAnnotations (\<lambda>prev. prev @ [newAnnotation]) s)\<lparr>selection := None\<rparr>,
                      [None]))
               else (s, [])))"

text \<open>
  One annotation made by the user: a selection becomes the current one and
  \<open>addAnnotation\<close> is called on it.
\<close>

record creation =
  c_selection :: selection
  c_status :: annotation_status
  c_note :: "ustring option"
  c_now1 :: nat
  c_now2 :: nat

definition annotate :: "viewer_state \<Rightarrow> creation \<Rightarrow> viewer_state" where
  "annotate s c =
     fst (addAnnotation (c_now1 c) (c_now2 c) (c_status c) (c_note c)
            (s\<lparr>selection := Some (c_selection c)\<rparr>))"

fun annotate_all :: "viewer_state \<Rightarrow> creation list \<Rightarrow> viewer_state" where
  "annotate_all s [] = s"
| "annotate_all s (c # cs) = annotate_all (annotate s c) cs"

text \<open>The records a list of creations gives rise to: one for each creation whose
  selection has a rectangle and a page number other than zero.\<close>

definition creatable :: "creation \<Rightarrow> bool" where
  "creatable c = (sel_rect (c_selection c) \<noteq> None \<and> sel_pageNumber (c_selection c) \<noteq> 0)"

definition created_record :: "creation \<Rightarrow> annotation" where
  "created_record c =
     \<lparr>ann_id = string_of_nat (c_now1 c),
      ann_pageNumber = sel_pageNumber (c_selection c),
      ann_rect = sel_rect (c_selection c),
      ann_status = c_status c,
      ann_note = c_note c,
      ann_content = sel_content (c_selection c),
      ann_createdAt = c_now2 c\<rparr>"

text \<open>What the proof of the round trip maintains: every annotation in memory has a
  rectangle, and the stored list restores to the list in memory.\<close>

definition persisted :: "viewer_state \<Rightarrow> bool" where
  "persisted s \<longleftrightarrow>
     (\<forall>a \<in> set (annotations s). ann_rect a \<noteq> None) \<and>
     (case ann_storage s of
        None \<Rightarrow> annotations s = []
      | Some stored \<Rightarrow> filter (\<lambda>a. ann_rect a \<noteq> None) stored = annotations s)"

section \<open>The document registry (lib/db.ts)\<close>

text \<open>
  The database file holds JSON: a row is an object, here the list of its properties in
  order. \<open>loadDb\<close> falls back to the empty database when the file is missing or cannot
  be read or parsed.
\<close>

datatype json = JNumber int | JString string | JNull

type_synonym row = "(string \<times> json) list"

record database =
  db_pdfs :: "row list"
  db_annotations :: "row list"
  nextPdfId :: nat
  nextAnnotationId :: nat

datatype db_file = Missing | Unreadable | Stored database

definition loadDb :: "db_file \<Rightarrow> database" where
  "loadDb f =
     (case f of
        Stored db \<Rightarrow> db
      | _ \<Rightarrow> \<lparr>db_pdfs = [], db_annotations = [], nextPdfId = 1, nextAnnotationId = 1\<rparr>)"

text \<open>The object pattern \<^verbatim>\<open>({ file_data, ...rest }) => rest\<close>: the properties other than
  the named one, in their order.\<close>

definition rest_without :: "string \<Rightarrow> row \<Rightarrow> row" where
  "rest_without key r = filter (\<lambda>(k, v). k \<noteq> key) r"

definition getAll :: "db_file \<Rightarrow> row list" where
  "getAll f = map (rest_without ''file_data'') (db_pdfs (loadDb f))"

text \<open>\<open>pdfOps.create\<close>; \<open>now1\<close> and \<open>now2\<close> are the two time stamps it takes.
  The result is the file as saved and the new id.\<close>

definition pdf_create :: "string \<Rightarrow> string \<Rightarrow> string \<Rightarrow> string \<Rightarrow> db_file \<Rightarrow> db_file \<times> nat" where
  "pdf_create name fileData now1 now2 f =
     (let db = loadDb f;
          newPdf = [(''id'', JNumber (int (nextPdfId db))), (''name'', JString name),
                    (''file_data'', JString fileData), (''status'', JString ''none''),
                    (''uploaded_at'', JString now1), (''updated_at'', JString now2)]
      in (Stored (db\<lparr>db_pdfs := db_pdfs db @ [newPdf], nextPdfId := nextPdfId db + 1\<rparr>),
          nextPdfId db))"

subsection \<open>Example inputs\<close>

definition small_drag :: drag where
  "small_drag = \<lparr>startX = 100, startY = 100, endX = 105, endY = 140, pageNum = 1\<rparr>"

definition wide_drag :: drag where
  "wide_drag = \<lparr>startX = 30, startY = 40, endX = 10, endY = 20, pageNum = 1\<rparr>"

definition retina_canvas :: canvas where
  "retina_canvas = \<lparr>canvas_width = 1200, canvas_height = 1600, clientWidth = 600,
     clientHeight = 800\<rparr>"

definition one_page :: dom where
  "one_page = \<lparr>pageRefs = (\<lambda>n. if n = 1 then Some (PageDiv (Some retina_canvas)) else None),
     context2d = True\<rparr>"

definition dragging :: "drag \<Rightarrow> viewer_state" where
  "dragging r = (viewer_mount None)\<lparr>isSelecting := True, selectionRect := Some r\<rparr>"

definition png_stub :: "offscreen \<Rightarrow> string" where
  "png_stub c = ''data:image/png;base64,AAAA''"

definition region_selection :: selection where
  "region_selection =
     \<lparr>sel_type = RegionSel, sel_content = ascii ''Region from Page 2'', sel_pageNumber = 2,
      sel_imageData = Some ''AAAA'',
      sel_rect = Some \<lparr>rect_x = 10, rect_y = 20, rect_width = 30, rect_height = 40\<rparr>\<rparr>"

definition text_selection :: selection where
  "text_selection =
     \<lparr>sel_type = TextSel, sel_content = ascii ''The cat sat'', sel_pageNumber = 1,
      sel_imageData = None, sel_rect = None\<rparr>"

definition two_creations :: "creation list" where
  "two_creations =
     [\<lparr>c_selection = region_selection, c_status = Complete, c_note = None,
       c_now1 = 1700, c_now2 = 1701\<rparr>,
      \<lparr>c_selection = text_selection, c_status = Pending, c_note = None,
       c_now1 = 1800, c_now2 = 1800\<rparr>,
      \<lparr>c_selection = region_selection, c_status = Note, c_note = Some (ascii ''check''),
       c_now1 = 1900, c_now2 = 1900\<rparr>]"

definition old_record :: annotation where
  "old_record =
     \<lparr>ann_id = ''7'', ann_pageNumber = 1, ann_rect = None, ann_status = Pending,
      ann_note = None, ann_content = ascii ''old'', ann_createdAt = 7\<rparr>"

definition two_pdfs :: db_file where
  "two_pdfs =
     fst (pdf_create ''b.pdf'' ''JVBERi0y'' ''2024-01-02'' ''2024-01-02''
       (fst (pdf_create ''a.pdf'' ''JVBERi0x'' ''2024-01-01'' ''2024-01-01'' Missing)))"

section \<open>Properties of the chat component\<close>

subsection \<open>State updates\<close>

lemma messages_setMessages: "messages (setMessages f s) = f (messages s)"
  by (simp add: setMessages_def sync_effect_def Let_def)

lemma messagesRef_setMessages: "messagesRef (setMessages f s) = f (messages s)"
  by (simp add: setMessages_def sync_effect_def Let_def)

lemma messages_mount: "messages (mount saved) = (case saved of None \<Rightarrow> [] | Some p \<Rightarrow> p)"
  by (simp add: mount_def messages_setMessages split: option.splits)

lemma messagesRef_mount: "messagesRef (mount saved) = messages (mount saved)"
  by (simp add: mount_def messagesRef_setMessages messages_setMessages)

lemma messages_send_begin:
  "messages (send_begin t img s) = messages s @ [userMessage t img, assistantMessage]"
  by (simp add: send_begin_def messages_setMessages)

lemma update_last_snoc: "update_last f (xs @ [m]) = xs @ [f m]"
  by (simp add: update_last_def)

lemma messages_on_chunk:
  "messages (on_chunk full s) = update_last (\<lambda>m. m\<lparr>content := full\<rparr>) (messages s)"
  by (simp add: on_chunk_def messages_setMessages)

text \<open>The callback keeps the text received so far in the last message.\<close>

lemma messages_deliver:
  "messages s = xs @ [m] \<Longrightarrow> content m = full \<Longrightarrow>
   messages (deliver full cs s) = xs @ [m\<lparr>content := full @ concat cs\<rparr>]"
proof (induction cs arbitrary: full s m)
  case Nil
  then show ?case by simp
next
  case (Cons c cs)
  have "messages (on_chunk (full @ c) s) = xs @ [m\<lparr>content := full @ c\<rparr>]"
    using Cons.prems(1) by (simp add: messages_on_chunk update_last_snoc)
  from Cons.IH[OF this, of "full @ c"] show ?case by simp
qed

lemma messages_send_complete:
  "messages (send_complete s) =
     update_last (\<lambda>m. m\<lparr>isStreaming := Some False\<rparr>) (messages s)"
  by (simp add: send_complete_def messages_setMessages)

text \<open>The client catches every error itself, so its promise is never rejected.\<close>

lemma sr_thrown_none: "sr_thrown (streamFromGemini delta e p i h) = None"
  by (simp add: streamFromGemini_def)

lemma messages_handleSend:
  assumes "messageText \<noteq> [] \<or> truthy imageToSend"
  shows "messages (fst (handleSend delta e s messageText imageToSend)) =
     messages s @ [userMessage messageText imageToSend,
        \<lparr>role = Assistant,
         content = concat (sr_chunks (streamFromGemini delta e
             (or_else messageText ''Analyze this image.'') imageToSend
             (filter (\<lambda>m. \<not> streaming m) (messagesRef s)))),
         imageData = None, isStreaming = Some False\<rparr>]"
proof -
  let ?r = "streamFromGemini delta e (or_else messageText ''Analyze this image.'') imageToSend
             (filter (\<lambda>m. \<not> streaming m) (messagesRef s))"
  let ?s1 = "send_begin messageText imageToSend s"
  let ?u = "userMessage messageText imageToSend"
  have b: "messages ?s1 = (messages s @ [?u]) @ [assistantMessage]"
    by (simp add: messages_send_begin)
  have d: "messages (deliver [] (sr_chunks ?r) ?s1) =
      (messages s @ [?u]) @ [assistantMessage\<lparr>content := [] @ concat (sr_chunks ?r)\<rparr>]"
    by (rule messages_deliver[OF b]) (simp add: assistantMessage_def)
  have "fst (handleSend delta e s messageText imageToSend) =
      send_complete (deliver [] (sr_chunks ?r) ?s1)"
    using assms by (auto simp: handleSend_def Let_def sr_thrown_none)
  then have "messages (fst (handleSend delta e s messageText imageToSend)) =
      update_last (\<lambda>m. m\<lparr>isStreaming := Some False\<rparr>)
        ((messages s @ [?u]) @ [assistantMessage\<lparr>content := [] @ concat (sr_chunks ?r)\<rparr>])"
    by (simp only: messages_send_complete d)
  also have "\<dots> = (messages s @ [?u]) @
        [assistantMessage\<lparr>content := [] @ concat (sr_chunks ?r), isStreaming := Some False\<rparr>]"
    by (simp only: update_last_snoc)
  finally show ?thesis
    by (simp add: assistantMessage_def)
qed

lemma request_handleSend:
  assumes "messageText \<noteq> [] \<or> truthy imageToSend"
  shows "snd (handleSend delta e s messageText imageToSend) =
     sr_request (streamFromGemini delta e (or_else messageText ''Analyze this image.'')
        imageToSend (filter (\<lambda>m. \<not> streaming m) (messagesRef s)))"
  using assms by (auto simp: handleSend_def Let_def sr_thrown_none)

subsection \<open>One send as a trace of events\<close>

text \<open>Splitting into lines.\<close>

lemma split_on_line:
  "c \<notin> set a \<Longrightarrow> split_on c (a @ c # b) = a # split_on c b"
  by (induction a) (auto split: list.splits)

lemma split_on_last: "c \<notin> set a \<Longrightarrow> split_on c a = [a]"
  by (induction a) (auto split: list.splits)

text \<open>A send that nothing disturbs is \<open>handleSend\<close> run from start to end.\<close>

lemma run_append: "run z (xs @ ys) = run (run z xs) ys"
  by (induction xs arbitrary: z) simp_all

lemma run_chunks:
  "run \<lparr>chat = s, inflight = fs @ [full]\<rparr> (map (Chunk (length fs)) cs) =
     \<lparr>chat = deliver full cs s, inflight = fs @ [full @ concat cs]\<rparr>"
  by (induction cs arbitrary: s full) (simp_all add: Let_def nth_append)

lemma run_send_trace:
  assumes "messageText \<noteq> [] \<or> truthy imageToSend"
  shows "run z (send_trace (length (inflight z)) messageText imageToSend cs) =
     \<lparr>chat = send_complete (deliver [] cs (send_begin messageText imageToSend (chat z))),
      inflight = inflight z\<rparr>"
proof -
  let ?n = "length (inflight z)"
  have "run z (send_trace ?n messageText imageToSend cs) =
      run (run \<lparr>chat = send_begin messageText imageToSend (chat z), inflight = inflight z @ [[]]\<rparr>
             (map (Chunk ?n) cs)) [Settle ?n]"
    using assms by (auto simp: send_trace_def run_append)
  also have "\<dots> = run \<lparr>chat = deliver [] cs (send_begin messageText imageToSend (chat z)),
                        inflight = inflight z @ [concat cs]\<rparr> [Settle ?n]"
    by (simp only: run_chunks append_Nil)
  also have "\<dots> = \<lparr>chat = send_complete (deliver [] cs (send_begin messageText imageToSend (chat z))),
                  inflight = inflight z\<rparr>"
    by simp
  finally show ?thesis .
qed

lemma fst_handleSend:
  assumes "messageText \<noteq> [] \<or> truthy imageToSend"
  shows "fst (handleSend delta e s messageText imageToSend) =
     send_complete (deliver []
       (sr_chunks (streamFromGemini delta e (or_else messageText ''Analyze this image.'')
          imageToSend (filter (\<lambda>m. \<not> streaming m) (messagesRef s))))
       (send_begin messageText imageToSend s))"
  using assms by (auto simp: handleSend_def Let_def sr_thrown_none)

lemma undisturbed_send_handleSend:
  assumes "messageText \<noteq> [] \<or> truthy imageToSend"
  shows "undisturbed_send delta e z messageText imageToSend =
     \<lparr>chat = fst (handleSend delta e (chat z) messageText imageToSend), inflight = inflight z\<rparr>"
  unfolding undisturbed_send_def
  by (simp only: run_send_trace[OF assms] fst_handleSend[OF assms])

lemma messages_send_trace:
  assumes "messageText \<noteq> [] \<or> truthy imageToSend"
  shows "messages (chat (run z (send_trace (length (inflight z)) messageText imageToSend cs))) =
     messages (chat z) @ [userMessage messageText imageToSend,
        \<lparr>role = Assistant, content = concat cs, imageData = None, isStreaming = Some False\<rparr>]"
proof -
  let ?u = "userMessage messageText imageToSend"
  let ?s1 = "send_begin messageText imageToSend (chat z)"
  have b: "messages ?s1 = (messages (chat z) @ [?u]) @ [assistantMessage]"
    by (simp add: messages_send_begin)
  have d: "messages (deliver [] cs ?s1) =
      (messages (chat z) @ [?u]) @ [assistantMessage\<lparr>content := [] @ concat cs\<rparr>]"
    by (rule messages_deliver[OF b]) (simp add: assistantMessage_def)
  have "messages (chat (run z (send_trace (length (inflight z)) messageText imageToSend cs))) =
      update_last (\<lambda>m. m\<lparr>isStreaming := Some False\<rparr>)
        ((messages (chat z) @ [?u]) @ [assistantMessage\<lparr>content := [] @ concat cs\<rparr>])"
    by (simp add: run_send_trace[OF assms] messages_send_complete d)
  also have "\<dots> = (messages (chat z) @ [?u]) @
        [assistantMessage\<lparr>content := [] @ concat cs, isStreaming := Some False\<rparr>]"
    by (simp only: update_last_snoc)
  finally show ?thesis
    by (simp add: assistantMessage_def)
qed

subsection \<open>Streaming a response\<close>

lemma three_chunks:
  "sr_chunks (streamFromGemini payload_is_text three_chunk_env p img h) =
     [''Hel'', ''lo '', ''world'']"
  by (simp add: streamFromGemini_def three_chunk_env_def key_missing_def truthy_def
      response_ok_def starts_with_def payload_is_text_def)

text \<open>
  C1, as the code has it. A send that runs from its start to its completion with no
  other event in between (no clear, no page load, no event of another send), and whose
  stream hands the chunks \<open>cs\<close> to the callback in this order, appends the user
  message and exactly one assistant message; after completion the content of that
  message is the concatenation of the chunks in arrival order and its \<open>isStreaming\<close>
  flag is false. With the chunks the client delivers, this trace is \<open>handleSend\<close> run
  from start to end.
\<close>

theorem send_streams_concatenation:
  assumes ne: "messageText \<noteq> [] \<or> truthy imageToSend"
  shows "messages (chat (run z (send_trace (length (inflight z)) messageText imageToSend cs))) =
           messages (chat z) @ [userMessage messageText imageToSend,
             \<lparr>role = Assistant, content = concat cs, imageData = None,
              isStreaming = Some False\<rparr>]
       \<and> inflight (run z (send_trace (length (inflight z)) messageText imageToSend cs)) =
           inflight z
       \<and> (sr_chunks (streamFromGemini delta e (or_else messageText ''Analyze this image.'')
             imageToSend (filter (\<lambda>m. \<not> streaming m) (messagesRef (chat z)))) = cs \<longrightarrow>
           undisturbed_send delta e z messageText imageToSend =
             run z (send_trace (length (inflight z)) messageText imageToSend cs)
           \<and> chat (undisturbed_send delta e z messageText imageToSend) =
             fst (handleSend delta e (chat z) messageText imageToSend)
           \<and> messages (fst (handleSend delta e (chat z) messageText imageToSend)) =
             messages (chat z) @ [userMessage messageText imageToSend,
               \<lparr>role = Assistant, content = concat cs, imageData = None,
                isStreaming = Some False\<rparr>])"
proof -
  have a: "messages (chat (run z (send_trace (length (inflight z)) messageText imageToSend cs))) =
           messages (chat z) @ [userMessage messageText imageToSend,
             \<lparr>role = Assistant, content = concat cs, imageData = None,
              isStreaming = Some False\<rparr>]"
    by (rule messages_send_trace[OF ne])
  have b: "inflight (run z (send_trace (length (inflight z)) messageText imageToSend cs)) =
           inflight z"
    by (simp add: run_send_trace[OF ne])
  have c: "chat (undisturbed_send delta e z messageText imageToSend) =
             fst (handleSend delta e (chat z) messageText imageToSend)"
    by (simp add: undisturbed_send_handleSend[OF ne])
  show ?thesis
    using a b c messages_handleSend[OF ne, of delta e "chat z"]
    by (auto simp: undisturbed_send_def)
qed

theorem send_streams_concatenation_witness:
  "messages (chat (run first_visit (send_trace 0 ''hi'' None [''Hel'', ''lo '', ''world'']))) =
     [\<lparr>role = User, content = ''hi'', imageData = None, isStreaming = None\<rparr>,
      \<lparr>role = Assistant, content = ''Hello world'', imageData = None,
       isStreaming = Some False\<rparr>]
   \<and> messages (fst (handleSend payload_is_text three_chunk_env (mount None) ''hi'' None)) =
     [\<lparr>role = User, content = ''hi'', imageData = None, isStreaming = None\<rparr>,
      \<lparr>role = Assistant, content = ''Hello world'', imageData = None,
       isStreaming = Some False\<rparr>]"
proof -
  have n: "''hi'' \<noteq> [] \<or> truthy None" by simp
  from send_streams_concatenation[OF n, of first_visit "[''Hel'', ''lo '', ''world'']"
      payload_is_text three_chunk_env]
  show ?thesis
    by (simp add: three_chunks first_visit_def messages_mount userMessage_def or_else_def)
qed

text \<open>
  C1 as stated fails for a send that is disturbed: the component has no means of
  cancelling a stream, and when the user clears the chat while the three chunks are
  arriving the send completes with no assistant message in the list at all.
\<close>

theorem cleared_send_counterexample:
  "messages (chat (run first_visit cleared_while_streaming)) = []
   \<and> inflight (run first_visit cleared_while_streaming) = []
   \<and> \<not> isLoading (chat (run first_visit cleared_while_streaming))"
  by (simp add: cleared_while_streaming_def first_visit_def truthy_def Let_def
      on_chunk_def send_complete_def handleClear_def messages_setMessages update_last_def)


subsection \<open>The history window\<close>

text \<open>
  C2. When the committed history (the messages that are not streaming) has \<open>n\<close>
  entries, the request handed to the endpoint carries its last \<open>min n 10\<close> entries,
  in order, followed by the new user turn, and nothing else. The new turn carries the
  prompt text (\<open>Analyze this image.\<close> when the text is empty and an image is sent).
\<close>

theorem send_window:
  assumes ne: "messageText \<noteq> [] \<or> truthy imageToSend"
    and key: "\<not> key_missing (apiKey e)"
    and ref: "messagesRef s = messages s"
  shows "map_option req_messages (snd (handleSend delta e s messageText imageToSend)) =
     Some (map encode_history
             (drop (length (filter (\<lambda>m. \<not> streaming m) (messages s)) - 10)
                (filter (\<lambda>m. \<not> streaming m) (messages s)))
           @ [encode_current (or_else messageText ''Analyze this image.'') imageToSend])
   \<and> map_option (length \<circ> req_messages) (snd (handleSend delta e s messageText imageToSend)) =
     Some (min (length (filter (\<lambda>m. \<not> streaming m) (messages s))) 10 + 1)"
  using key ref
  by (simp add: request_handleSend[OF ne] streamFromGemini_def build_request_def slice_last_def)

lemma twelve_committed: "filter (\<lambda>m. \<not> streaming m) twelve_turns = twelve_turns"
  by (simp add: twelve_turns_def numbered_message_def streaming_def)

lemma twelve_length: "length twelve_turns = 24"
  by (simp add: twelve_turns_def)

lemma twelve_recent:
  "map (req_content \<circ> encode_history) (drop 14 twelve_turns) =
   map Plain [''14'', ''15'', ''16'', ''17'', ''18'', ''19'', ''20'', ''21'', ''22'', ''23'']"
  by (simp add: twelve_turns_def numbered_message_def encode_history_def digit_char_def
      string_of_nat.simps)

text \<open>After twelve completed turns the thirteenth send carries ten earlier messages and
  the new one.\<close>

theorem send_window_witness:
  "map_option (map req_content \<circ> req_messages)
     (snd (handleSend payload_is_text three_chunk_env (mount (Some twelve_turns)) ''next'' None)) =
   Some (map Plain [''14'', ''15'', ''16'', ''17'', ''18'', ''19'', ''20'', ''21'', ''22'', ''23'',
           ''next''])
   \<and> map_option (length \<circ> req_messages)
     (snd (handleSend payload_is_text three_chunk_env (mount (Some twelve_turns)) ''next'' None)) =
   Some 11"
proof -
  let ?out = "snd (handleSend payload_is_text three_chunk_env (mount (Some twelve_turns))
                 ''next'' None)"
  have k: "\<not> key_missing (apiKey three_chunk_env)"
    by (simp add: three_chunk_env_def key_missing_def truthy_def)
  have n: "''next'' \<noteq> [] \<or> truthy None" by simp
  note w = send_window[OF n k messagesRef_mount, of payload_is_text "Some twelve_turns"]
  obtain req where r: "?out = Some req"
    using w by (cases ?out) auto
  have m: "req_messages req =
      map encode_history (drop 14 twelve_turns) @ [encode_current ''next'' None]"
    using w r by (simp add: messages_mount twelve_committed twelve_length or_else_def)
  have "map req_content (req_messages req) =
      map (req_content \<circ> encode_history) (drop 14 twelve_turns) @ [Plain ''next'']"
    by (simp add: m encode_current_def)
  then show ?thesis
    using w by (simp add: r twelve_recent twelve_committed twelve_length messages_mount)
qed

subsection \<open>At most one streaming message\<close>

lemma storage_setMessages:
  "storage (setMessages f s) =
     (if filter (\<lambda>m. \<not> streaming m) (f (messages s)) \<noteq> []
      then Some (filter (\<lambda>m. \<not> streaming m) (f (messages s))) else storage s)"
  by (simp add: setMessages_def sync_effect_def Let_def)

lemma isLoading_setMessages: "isLoading (setMessages f s) = isLoading s"
  by (simp add: setMessages_def sync_effect_def Let_def)

lemma filter_streaming_committed: "filter streaming (filter (\<lambda>m. \<not> streaming m) xs) = []"
  by (induction xs) auto

lemma storage_ok_setMessages:
  "storage_ok (storage s) \<Longrightarrow> storage_ok (storage (setMessages f s))"
  by (simp add: storage_setMessages storage_ok_def filter_streaming_committed)

lemma filter_butlast_empty: "filter P xs = [] \<Longrightarrow> filter P (butlast xs) = []"
  by (auto simp: filter_empty_conv dest: in_set_butlastD)

lemma session_ok_reload:
  assumes "session_ok z"
  shows "session_ok (apply_event z Reload)"
proof -
  let ?st = "storage (chat z)"
  have ok: "storage_ok ?st" using assms by (simp add: session_ok_def)
  have m: "filter streaming (messages (mount ?st)) = []"
    using ok by (simp add: messages_mount storage_ok_def split: option.splits)
  have l: "\<not> isLoading (mount ?st)"
    by (simp add: mount_def isLoading_setMessages)
  have s: "storage_ok (storage (mount ?st))"
    unfolding mount_def by (rule storage_ok_setMessages) (simp add: ok)
  show ?thesis
    using m l s by (simp add: session_ok_def streaming_before_last_def filter_butlast_empty)
qed

lemma filter_streaming_update_content:
  "filter streaming (update_last (\<lambda>m. m\<lparr>content := c\<rparr>) xs) = [] \<longleftrightarrow> filter streaming xs = []"
proof (cases "xs = []")
  case True
  then show ?thesis by (simp add: update_last_def)
next
  case False
  then obtain ys y where "xs = ys @ [y]"
    by (metis append_butlast_last_id)
  then show ?thesis by (simp add: update_last_snoc streaming_def)
qed

lemma sbl_update_last: "streaming_before_last (update_last f xs) = streaming_before_last xs"
  by (simp add: streaming_before_last_def update_last_def)

lemma settle_clears:
  assumes "streaming_before_last xs = []"
  shows "filter streaming (update_last (\<lambda>m. m\<lparr>isStreaming := Some False\<rparr>) xs) = []"
proof (cases "xs = []")
  case True
  then show ?thesis by (simp add: update_last_def)
next
  case False
  then obtain ys y where "xs = ys @ [y]"
    by (metis append_butlast_last_id)
  then show ?thesis
    using assms by (simp add: update_last_snoc streaming_def streaming_before_last_def)
qed

lemma isLoading_send_begin: "isLoading (send_begin t img s)"
  by (simp add: send_begin_def isLoading_setMessages)

lemma storage_ok_send_begin:
  "storage_ok (storage s) \<Longrightarrow> storage_ok (storage (send_begin t img s))"
  unfolding send_begin_def
  by (rule storage_ok_setMessages) (simp add: storage_ok_setMessages)

lemma session_ok_send:
  assumes "session_ok z" and "\<not> isLoading (chat z)"
  shows "session_ok (apply_event z (Send t img))"
proof (cases "t = [] \<and> \<not> truthy img")
  case True
  then show ?thesis using assms by simp
next
  case False
  have idle: "inflight z = []" and none: "filter streaming (messages (chat z)) = []"
    and ok: "storage_ok (storage (chat z))"
    using assms by (auto simp: session_ok_def)
  have "streaming_before_last (messages (send_begin t img (chat z))) = []"
    using none
    by (simp add: messages_send_begin streaming_before_last_def butlast_append
        userMessage_def streaming_def)
  moreover have "apply_event z (Send t img) =
      \<lparr>chat = send_begin t img (chat z), inflight = [[]]\<rparr>"
    using False idle by auto
  ultimately show ?thesis
    using ok by (simp add: session_ok_def isLoading_send_begin storage_ok_send_begin)
qed

lemma session_ok_chunk:
  assumes "session_ok z"
  shows "session_ok (apply_event z (Chunk i c))"
proof (cases "i < length (inflight z)")
  case False
  then show ?thesis using assms by simp
next
  case True
  then show ?thesis
    using assms
    by (auto simp: session_ok_def Let_def on_chunk_def messages_setMessages
        isLoading_setMessages storage_ok_setMessages filter_streaming_update_content
        sbl_update_last)
qed

lemma session_ok_settle:
  assumes "session_ok z"
  shows "session_ok (apply_event z (Settle i))"
proof (cases "i < length (inflight z)")
  case False
  then show ?thesis using assms by simp
next
  case True
  have len: "length (inflight z) \<le> 1" and sbl: "streaming_before_last (messages (chat z)) = []"
    and ok: "storage_ok (storage (chat z))"
    using assms by (auto simp: session_ok_def)
  from True len have i: "i = 0" and one: "length (inflight z) = 1" by auto
  have e: "take i (inflight z) @ drop (Suc i) (inflight z) = []"
    using i one by simp
  have l: "\<not> isLoading (send_complete (chat z))"
    by (simp add: send_complete_def)
  have s: "storage_ok (storage (send_complete (chat z)))"
    using ok by (simp add: send_complete_def storage_ok_setMessages)
  have m: "filter streaming (messages (send_complete (chat z))) = []"
    using sbl by (simp add: messages_send_complete settle_clears)
  have b: "streaming_before_last (messages (send_complete (chat z))) = []"
    using sbl by (simp add: messages_send_complete sbl_update_last)
  have "apply_event z (Settle i) = \<lparr>chat = send_complete (chat z), inflight = []\<rparr>"
    using True e by simp
  then show ?thesis
    using l s m b by (simp add: session_ok_def)
qed

lemma session_ok_clear:
  assumes "session_ok z"
  shows "session_ok (apply_event z Clear)"
  using assms
  by (simp add: session_ok_def handleClear_def messages_setMessages isLoading_setMessages
      storage_setMessages storage_ok_def streaming_before_last_def)

lemma session_ok_first_visit: "session_ok first_visit"
  by (simp add: first_visit_def session_ok_def mount_def messages_setMessages
      isLoading_setMessages storage_setMessages storage_ok_def streaming_before_last_def)

lemma session_ok_run:
  "session_ok z \<Longrightarrow> sends_when_idle z evs \<Longrightarrow> session_ok (run z evs)"
proof (induction evs arbitrary: z)
  case Nil
  then show ?case by simp
next
  case (Cons ev evs)
  have "session_ok (apply_event z ev)"
  proof (cases ev)
    case Reload
    then show ?thesis using Cons.prems(1) session_ok_reload by simp
  next
    case (Send t img)
    then show ?thesis using Cons.prems session_ok_send by simp
  next
    case (Chunk i c)
    then show ?thesis using Cons.prems(1) session_ok_chunk by simp
  next
    case (Settle i)
    then show ?thesis using Cons.prems(1) session_ok_settle by simp
  next
    case Clear
    then show ?thesis using Cons.prems(1) session_ok_clear by simp
  qed
  moreover have "sends_when_idle (apply_event z ev) evs"
    using Cons.prems(2) by simp
  ultimately show ?case using Cons.IH by simp
qed

lemma at_most_one:
  assumes "streaming_before_last xs = []"
  shows "length (filter streaming xs) \<le> 1"
proof (cases "xs = []")
  case True
  then show ?thesis by simp
next
  case False
  then obtain ys y where "xs = ys @ [y]"
    by (metis append_butlast_last_id)
  then show ?thesis using assms by (simp add: streaming_before_last_def)
qed

text \<open>
  C3, as the code has it. Along every trace of page loads, sends with their chunks and
  completions, and clears, in which no send starts while \<open>isLoading\<close> holds, no message
  before the last one is streaming; so at most one message is streaming, and it is the
  last one. A clear may come at any point of a send.
\<close>

theorem streaming_only_last_when_serialized:
  assumes "sends_when_idle first_visit evs"
  shows "streaming_before_last (messages (chat (run first_visit evs))) = [] \<and>
         length (filter streaming (messages (chat (run first_visit evs)))) \<le> 1"
proof -
  have "session_ok (run first_visit evs)"
    using session_ok_first_visit assms by (rule session_ok_run)
  then have "streaming_before_last (messages (chat (run first_visit evs))) = []"
    by (simp add: session_ok_def)
  then show ?thesis using at_most_one by blast
qed


lemma clear_mid_stream_idle: "sends_when_idle first_visit clear_mid_stream"
  by (simp add: clear_mid_stream_def first_visit_def mount_def send_begin_def on_chunk_def
      send_complete_def handleClear_def isLoading_setMessages truthy_def)

theorem streaming_only_last_when_serialized_witness:
  "sends_when_idle first_visit clear_mid_stream \<and>
   streaming_before_last (messages (chat (run first_visit clear_mid_stream))) = [] \<and>
   length (filter streaming (messages (chat (run first_visit clear_mid_stream)))) \<le> 1"
  using streaming_only_last_when_serialized[OF clear_mid_stream_idle] clear_mid_stream_idle
  by simp

text \<open>
  C3 as stated fails: \<open>handleSend\<close> itself does not look at \<open>isLoading\<close>, and a second
  send that starts before the first has completed leaves two streaming messages, the
  first of them not at the end.
\<close>

theorem overlapping_sends_counterexample:
  "streaming_before_last (messages (chat (run first_visit [Send ''a'' None, Send ''b'' None]))) =
     [assistantMessage]
   \<and> length (filter streaming
        (messages (chat (run first_visit [Send ''a'' None, Send ''b'' None])))) = 2"
  by (simp add: first_visit_def messages_send_begin messages_mount streaming_before_last_def
      userMessage_def assistantMessage_def streaming_def truthy_def)



subsection \<open>Failed sends\<close>

lemma read_loop_until_error:
  "read_loop delta (map ReadValue vs @ ReadError err # rest) =
     read_loop delta (map ReadValue vs) @ [caught_text err]"
  by (induction vs) simp_all

lemma failure_chunks_of:
  "transport_failure delta f partial errorText \<Longrightarrow> fetch e = f \<Longrightarrow>
   \<not> key_missing (apiKey e) \<Longrightarrow>
   concat (sr_chunks (streamFromGemini delta e p img h)) = partial @ errorText"
  by (induction rule: transport_failure.induct)
     (simp_all add: streamFromGemini_def read_loop_until_error)

lemma failure_chunks:
  assumes "transport_failure delta (fetch e) partial errorText"
    and "\<not> key_missing (apiKey e)"
  shows "concat (sr_chunks (streamFromGemini delta e p img h)) = partial @ errorText"
  using failure_chunks_of[OF assms(1) refl assms(2)] .

lemma failure_text_nonempty:
  "transport_failure delta f partial errorText \<Longrightarrow> errorText \<noteq> []"
  by (induction rule: transport_failure.induct) (simp_all add: caught_text_def)

lemma messagesRef_send_complete: "messagesRef (send_complete s) = messages (send_complete s)"
  by (simp add: send_complete_def messagesRef_setMessages messages_setMessages)

lemma state_handleSend:
  assumes "messageText \<noteq> [] \<or> truthy imageToSend"
  shows "\<exists>s'. fst (handleSend delta e s messageText imageToSend) = send_complete s'"
  using assms by (auto simp: handleSend_def Let_def sr_thrown_none)

lemma messagesRef_handleSend:
  assumes "messageText \<noteq> [] \<or> truthy imageToSend"
  shows "messagesRef (fst (handleSend delta e s messageText imageToSend)) =
         messages (fst (handleSend delta e s messageText imageToSend))"
  using state_handleSend[OF assms, of delta e s] by (auto simp: messagesRef_send_complete)

lemma isLoading_handleSend:
  assumes "messageText \<noteq> [] \<or> truthy imageToSend"
  shows "\<not> isLoading (fst (handleSend delta e s messageText imageToSend))"
  using state_handleSend[OF assms, of delta e s] by (auto simp: send_complete_def)

lemma malformed_skipped:
  "delta d = None \<Longrightarrow>
   process_lines delta ((''data: '' @ d) # rest) = process_lines delta rest"
  by (simp add: starts_with_def Let_def)

text \<open>
  C4, as the code has it. Take a send that runs from its start to its completion with
  no other event in between, and during which the transport fails (the request is
  rejected, the status is not a success, the response has no stream, or a read of the
  stream fails). The client hands its error message to the callback like any other
  chunk: the assistant message of the turn ends with the text received before the
  failure followed by the error message, which is not empty, and its \<open>isStreaming\<close>
  flag is false. When the request is rejected or the status is not a success nothing
  was received, and the content is the error message alone. The session is not loading
  afterwards, and the next undisturbed send runs as any send does, on a history that
  contains the failed turn. An event that cannot be decoded is no failure of the turn:
  it is skipped and the stream goes on.
\<close>

theorem failed_send_appends_error:
  assumes ne: "messageText \<noteq> [] \<or> truthy imageToSend"
    and key: "\<not> key_missing (apiKey e)"
    and fail: "transport_failure delta (fetch e) partial errorText"
    and nxt: "nextText \<noteq> [] \<or> truthy nextImage"
    and z': "z' = undisturbed_send delta e z messageText imageToSend"
  shows "chat z' = fst (handleSend delta e (chat z) messageText imageToSend)
       \<and> inflight z' = inflight z
       \<and> messages (chat z') =
           messages (chat z) @ [userMessage messageText imageToSend,
             \<lparr>role = Assistant, content = partial @ errorText, imageData = None,
              isStreaming = Some False\<rparr>]
       \<and> errorText \<noteq> []
       \<and> \<not> isLoading (chat z')
       \<and> chat (undisturbed_send delta e2 z' nextText nextImage) =
           fst (handleSend delta e2 (chat z') nextText nextImage)
       \<and> messages (chat (undisturbed_send delta e2 z' nextText nextImage)) =
           messages (chat z') @ [userMessage nextText nextImage,
             \<lparr>role = Assistant,
              content = concat (sr_chunks (streamFromGemini delta e2
                 (or_else nextText ''Analyze this image.'') nextImage
                 (filter (\<lambda>m. \<not> streaming m) (messages (chat z'))))),
              imageData = None, isStreaming = Some False\<rparr>]
       \<and> (delta d = None \<longrightarrow>
            process_lines delta ((''data: '' @ d) # rest) = process_lines delta rest)"
proof -
  have c: "chat z' = fst (handleSend delta e (chat z) messageText imageToSend)"
    and i: "inflight z' = inflight z"
    unfolding z' by (simp_all add: undisturbed_send_handleSend[OF ne])
  have a: "messages (chat z') =
           messages (chat z) @ [userMessage messageText imageToSend,
             \<lparr>role = Assistant, content = partial @ errorText, imageData = None,
              isStreaming = Some False\<rparr>]"
    unfolding c by (simp add: messages_handleSend[OF ne] failure_chunks[OF fail key])
  have r: "messagesRef (chat z') = messages (chat z')"
    unfolding c by (rule messagesRef_handleSend[OF ne])
  have l: "\<not> isLoading (chat z')"
    unfolding c by (rule isLoading_handleSend[OF ne])
  have c2: "chat (undisturbed_send delta e2 z' nextText nextImage) =
           fst (handleSend delta e2 (chat z') nextText nextImage)"
    by (simp add: undisturbed_send_handleSend[OF nxt])
  have n: "messages (chat (undisturbed_send delta e2 z' nextText nextImage)) =
           messages (chat z') @ [userMessage nextText nextImage,
             \<lparr>role = Assistant,
              content = concat (sr_chunks (streamFromGemini delta e2
                 (or_else nextText ''Analyze this image.'') nextImage
                 (filter (\<lambda>m. \<not> streaming m) (messages (chat z'))))),
              imageData = None, isStreaming = Some False\<rparr>]"
    unfolding c2 using messages_handleSend[OF nxt, of delta e2 "chat z'"] by (simp add: r)
  have m: "delta d = None \<longrightarrow>
            process_lines delta ((''data: '' @ d) # rest) = process_lines delta rest"
    by (simp add: malformed_skipped)
  show ?thesis
    using c i a l c2 n m failure_text_nonempty[OF fail] by blast
qed

lemma broken_stream_fails_skip:
  "transport_failure parse_or_skip (fetch broken_stream_env) ''Hel''
     (caught_text ''network error'')"
proof -
  have "transport_failure parse_or_skip
      (Response 200 (Inr [])
        (Body (map ReadValue [''data: Hel''] @
           ReadError ''network error'' # [ReadValue ''data: lo ''])))
      (concat (read_loop parse_or_skip (map ReadValue [''data: Hel''])))
      (caught_text ''network error'')"
    by (rule read_failed) (simp add: response_ok_def)
  then show ?thesis
    by (simp add: broken_stream_env_def starts_with_def parse_or_skip_def)
qed

lemma three_chunks_skip:
  "concat (sr_chunks (streamFromGemini parse_or_skip three_chunk_env p img h)) = ''Hello world''"
  by (simp add: streamFromGemini_def three_chunk_env_def key_missing_def truthy_def
      response_ok_def starts_with_def parse_or_skip_def)

theorem failed_send_appends_error_witness:
  "messages (chat (undisturbed_send parse_or_skip broken_stream_env first_visit ''hi'' None)) =
     [\<lparr>role = User, content = ''hi'', imageData = None, isStreaming = None\<rparr>,
      \<lparr>role = Assistant, content = ''Hel'' @ caught_text ''network error'', imageData = None,
       isStreaming = Some False\<rparr>]
   \<and> messages (chat (undisturbed_send parse_or_skip three_chunk_env
        (undisturbed_send parse_or_skip broken_stream_env first_visit ''hi'' None)
        ''again'' None)) =
     [\<lparr>role = User, content = ''hi'', imageData = None, isStreaming = None\<rparr>,
      \<lparr>role = Assistant, content = ''Hel'' @ caught_text ''network error'', imageData = None,
       isStreaming = Some False\<rparr>,
      \<lparr>role = User, content = ''again'', imageData = None, isStreaming = None\<rparr>,
      \<lparr>role = Assistant, content = ''Hello world'', imageData = None,
       isStreaming = Some False\<rparr>]
   \<and> parse_or_skip ''{'' = None
   \<and> process_lines parse_or_skip [''data: {'', ''data: lo''] =
       process_lines parse_or_skip [''data: lo'']"
proof -
  have k: "\<not> key_missing (apiKey broken_stream_env)"
    by (simp add: broken_stream_env_def key_missing_def truthy_def)
  have n1: "''hi'' \<noteq> [] \<or> truthy None" and n2: "''again'' \<noteq> [] \<or> truthy None"
    by simp_all
  have p: "parse_or_skip ''{'' = None"
    by (simp add: parse_or_skip_def)
  let ?z1 = "undisturbed_send parse_or_skip broken_stream_env first_visit ''hi'' None"
  note w = failed_send_appends_error[OF n1 k broken_stream_fails_skip n2 refl,
      of first_visit three_chunk_env "''{''" "[''data: lo'']"]
  from w have m1: "messages (chat ?z1) =
      messages (chat first_visit) @ [userMessage ''hi'' None,
        \<lparr>role = Assistant, content = ''Hel'' @ caught_text ''network error'', imageData = None,
         isStreaming = Some False\<rparr>]"
    by blast
  from w have m2: "messages (chat (undisturbed_send parse_or_skip three_chunk_env ?z1
        ''again'' None)) =
      messages (chat ?z1) @ [userMessage ''again'' None,
        \<lparr>role = Assistant,
         content = concat (sr_chunks (streamFromGemini parse_or_skip three_chunk_env
           (or_else ''again'' ''Analyze this image.'') None
           (filter (\<lambda>m. \<not> streaming m) (messages (chat ?z1))))),
         imageData = None, isStreaming = Some False\<rparr>]"
    by blast
  from w p have m3: "process_lines parse_or_skip ((''data: '' @ ''{'') # [''data: lo'']) =
      process_lines parse_or_skip [''data: lo'']"
    by blast
  have 1: "messages (chat ?z1) =
     [\<lparr>role = User, content = ''hi'', imageData = None, isStreaming = None\<rparr>,
      \<lparr>role = Assistant, content = ''Hel'' @ caught_text ''network error'', imageData = None,
       isStreaming = Some False\<rparr>]"
    unfolding m1 by (simp add: first_visit_def messages_mount userMessage_def or_else_def)
  have 2: "messages (chat (undisturbed_send parse_or_skip three_chunk_env ?z1 ''again'' None)) =
     [\<lparr>role = User, content = ''hi'', imageData = None, isStreaming = None\<rparr>,
      \<lparr>role = Assistant, content = ''Hel'' @ caught_text ''network error'', imageData = None,
       isStreaming = Some False\<rparr>,
      \<lparr>role = User, content = ''again'', imageData = None, isStreaming = None\<rparr>,
      \<lparr>role = Assistant, content = ''Hello world'', imageData = None,
       isStreaming = Some False\<rparr>]"
    unfolding m2 1 by (simp add: three_chunks_skip userMessage_def or_else_def)
  have 3: "process_lines parse_or_skip [''data: {'', ''data: lo''] =
       process_lines parse_or_skip [''data: lo'']"
    using m3 by (simp only: append.simps)
  show ?thesis
    using 1 2 3 p by blast
qed

text \<open>A rejected request and a status that is not a success.\<close>

lemma rejected_request_content:
  "messages (fst (handleSend payload_is_text rejected_env (mount None) ''hi'' None)) =
     [\<lparr>role = User, content = ''hi'', imageData = None, isStreaming = None\<rparr>,
      \<lparr>role = Assistant, content = caught_text ''Failed to fetch'', imageData = None,
       isStreaming = Some False\<rparr>]"
  by (simp add: messages_handleSend messages_mount userMessage_def or_else_def
      streamFromGemini_def rejected_env_def key_missing_def truthy_def)

lemma bad_status_content:
  "messages (fst (handleSend payload_is_text status_env (mount None) ''hi'' None)) =
     [\<lparr>role = User, content = ''hi'', imageData = None, isStreaming = None\<rparr>,
      \<lparr>role = Assistant, content = ''Error: 500 - overloaded'', imageData = None,
       isStreaming = Some False\<rparr>]"
  by (simp add: messages_handleSend messages_mount userMessage_def or_else_def
      streamFromGemini_def status_env_def key_missing_def truthy_def response_ok_def
      string_of_nat.simps digit_char_def)

lemma broken_chunks:
  "sr_chunks (streamFromGemini payload_is_text broken_stream_env ''hi'' None []) =
     [''Hel'', caught_text ''network error'']"
  by (simp add: streamFromGemini_def broken_stream_env_def key_missing_def truthy_def
      response_ok_def starts_with_def payload_is_text_def)

lemma malformed_chunks:
  "sr_chunks (streamFromGemini parse_or_skip malformed_event_env ''hi'' None []) =
     [''Hel'', ''lo'']"
  by (simp add: streamFromGemini_def malformed_event_env_def key_missing_def truthy_def
      response_ok_def starts_with_def parse_or_skip_def)

text \<open>
  C4 as stated fails in three ways. After a read that fails when some text has arrived,
  the content is not replaced by the error message: the partial output stays in front
  of it. An event that cannot be decoded leaves no error message at all: the turn
  completes with the text of the other events. And when another send has started in
  between, the error message of the first send lands in the placeholder of the second,
  while the first placeholder stays empty and streaming.
\<close>

theorem failed_send_counterexample:
  "content (last (messages
      (fst (handleSend payload_is_text broken_stream_env (mount None) ''hi'' None)))) =
     ''Hel'' @ caught_text ''network error''
   \<and> content (last (messages
      (fst (handleSend payload_is_text broken_stream_env (mount None) ''hi'' None)))) \<noteq>
     caught_text ''network error''
   \<and> messages (fst (handleSend parse_or_skip malformed_event_env (mount None) ''hi'' None)) =
     [\<lparr>role = User, content = ''hi'', imageData = None, isStreaming = None\<rparr>,
      \<lparr>role = Assistant, content = ''Hello'', imageData = None, isStreaming = Some False\<rparr>]
   \<and> messages (chat (run first_visit failure_while_overlapping)) =
     [\<lparr>role = User, content = ''a'', imageData = None, isStreaming = None\<rparr>,
      \<lparr>role = Assistant, content = [], imageData = None, isStreaming = Some True\<rparr>,
      \<lparr>role = User, content = ''b'', imageData = None, isStreaming = None\<rparr>,
      \<lparr>role = Assistant, content = caught_text ''network error'', imageData = None,
       isStreaming = Some False\<rparr>]"
proof -
  have 1: "content (last (messages
      (fst (handleSend payload_is_text broken_stream_env (mount None) ''hi'' None)))) =
     ''Hel'' @ caught_text ''network error''"
    by (simp add: messages_handleSend messagesRef_mount messages_mount or_else_def broken_chunks)
  have 2: "messages (fst (handleSend parse_or_skip malformed_event_env (mount None) ''hi'' None)) =
     [\<lparr>role = User, content = ''hi'', imageData = None, isStreaming = None\<rparr>,
      \<lparr>role = Assistant, content = ''Hello'', imageData = None, isStreaming = Some False\<rparr>]"
    by (simp add: messages_handleSend messagesRef_mount messages_mount or_else_def
        malformed_chunks userMessage_def)
  have 3: "messages (chat (run first_visit failure_while_overlapping)) =
     [\<lparr>role = User, content = ''a'', imageData = None, isStreaming = None\<rparr>,
      \<lparr>role = Assistant, content = [], imageData = None, isStreaming = Some True\<rparr>,
      \<lparr>role = User, content = ''b'', imageData = None, isStreaming = None\<rparr>,
      \<lparr>role = Assistant, content = caught_text ''network error'', imageData = None,
       isStreaming = Some False\<rparr>]"
    by (simp add: failure_while_overlapping_def first_visit_def truthy_def Let_def
        messages_send_begin messages_on_chunk messages_send_complete messages_mount
        update_last_def userMessage_def assistantMessage_def or_else_def)
  show ?thesis
    using 1 2 3 by (simp add: caught_text_def)
qed

subsection \<open>Empty sends\<close>

text \<open>
  C10. A send whose prompt text is empty and that carries no image does nothing: the
  state, with its message list and the persisted history, is returned as it was and no
  request is made. The same holds for the input box when its text trims to nothing and
  no image is pending.
\<close>

theorem handleSend_empty_noop:
  "handleSend delta e s [] None = (s, None) \<and>
   handleSend delta e s [] (Some []) = (s, None) \<and>
   (trim (input s) = [] \<and> \<not> truthy (pendingImage s) \<longrightarrow>
      handleManualSend delta e s = (s, None))"
  by (simp add: handleSend_def handleManualSend_def truthy_def)

theorem handleSend_empty_noop_witness:
  "trim (input ((mount (Some twelve_turns))\<lparr>input := ''  ''\<rparr>)) = [] \<and>
   \<not> truthy (pendingImage ((mount (Some twelve_turns))\<lparr>input := ''  ''\<rparr>)) \<and>
   handleManualSend payload_is_text three_chunk_env ((mount (Some twelve_turns))\<lparr>input := ''  ''\<rparr>) =
     ((mount (Some twelve_turns))\<lparr>input := ''  ''\<rparr>, None)"
proof -
  have t: "trim (input ((mount (Some twelve_turns))\<lparr>input := ''  ''\<rparr>)) = []"
    by (simp add: trim_def is_space_def)
  have p: "\<not> truthy (pendingImage ((mount (Some twelve_turns))\<lparr>input := ''  ''\<rparr>))"
    by (simp add: mount_def setMessages_def sync_effect_def Let_def truthy_def)
  from handleSend_empty_noop[of payload_is_text three_chunk_env
      "(mount (Some twelve_turns))\<lparr>input := ''  ''\<rparr>"] t p
  show ?thesis by blast
qed

section \<open>Properties of the page viewer\<close>

subsection \<open>The size threshold of a region capture\<close>

text \<open>
  C5, as the code has it. When a drag ends on a page whose canvas and 2D context are
  there, a selection is emitted if and only if the width and the height of the
  rectangle both exceed 10. For a rectangle with width or height at most 10 nothing is
  emitted; the current selection, the annotations and their storage stay as they were,
  and the drag itself is ended (\<open>isSelecting\<close> becomes false and \<open>selectionRect\<close> is
  cleared), as it is after an accepted drag.
\<close>

theorem region_capture_threshold:
  assumes sel: "isSelecting s" and r: "selectionRect s = Some r"
    and page: "pageRefs d (pageNum r) = Some (PageDiv (Some cv))" and ctx: "context2d d"
  shows "(snd (handleMouseUp toDataURL d s) \<noteq> [] \<longleftrightarrow> drag_width r > 10 \<and> drag_height r > 10)
       \<and> (drag_width r \<le> 10 \<or> drag_height r \<le> 10 \<longrightarrow>
            handleMouseUp toDataURL d s = (s\<lparr>isSelecting := False, selectionRect := None\<rparr>, []))"
  using assms by (auto simp: handleMouseUp_def Let_def)

lemma small_drag_facts:
  "isSelecting (dragging small_drag)" "selectionRect (dragging small_drag) = Some small_drag"
  "pageRefs one_page (pageNum small_drag) = Some (PageDiv (Some retina_canvas))"
  "context2d one_page" "drag_width small_drag = 5" "drag_height small_drag = 40"
  by (simp_all add: dragging_def small_drag_def one_page_def drag_width_def drag_height_def)

theorem region_capture_threshold_witness:
  "drag_width small_drag \<le> 10 \<and>
   handleMouseUp png_stub one_page (dragging small_drag) =
     ((dragging small_drag)\<lparr>isSelecting := False, selectionRect := None\<rparr>, [])"
  using region_capture_threshold[OF small_drag_facts(1-4), of png_stub]
  by (simp add: small_drag_facts)

text \<open>
  C5 as stated fails in its last part: a rejected drag does change the state, since
  the handler resets the drag whatever the size of the rectangle.
\<close>

theorem rejected_drag_counterexample:
  "drag_width small_drag \<le> 10 \<and>
   snd (handleMouseUp png_stub one_page (dragging small_drag)) = [] \<and>
   fst (handleMouseUp png_stub one_page (dragging small_drag)) \<noteq> dragging small_drag \<and>
   isSelecting (dragging small_drag) \<and>
   \<not> isSelecting (fst (handleMouseUp png_stub one_page (dragging small_drag)))"
  by (simp add: handleMouseUp_def Let_def dragging_def small_drag_def one_page_def
      drag_width_def drag_height_def viewer_mount_def setAnnotations_def save_effect_def)

subsection \<open>The size of the captured image\<close>

text \<open>
  C6, as the code has it. For a valid capture (width and height above 10, and below
  \<open>2 ^ 32\<close>) the image of the emitted selection is the content of the temporary
  canvas, whose pixel dimensions are the width and the height of the rectangle with
  their fractions dropped, whatever the scale factors are. The scale factors only
  determine the block of the page canvas that is copied: it measures
  \<open>width * scaleX\<close> by \<open>height * scaleY\<close> and is drawn into the \<open>width\<close> by
  \<open>height\<close> temporary canvas.
\<close>

theorem capture_dimensions:
  assumes sel: "isSelecting s" and r: "selectionRect s = Some r"
    and page: "pageRefs d (pageNum r) = Some (PageDiv (Some cv))" and ctx: "context2d d"
    and w: "drag_width r > 10" and h: "drag_height r > 10"
    and wb: "drag_width r < 2 ^ 32" and hb: "drag_height r < 2 ^ 32"
  shows "map (map_option sel_imageData) (snd (handleMouseUp toDataURL d s)) =
           [Some (after_comma (toDataURL (capture cv r)))]
       \<and> int (off_width (capture cv r)) = \<lfloor>drag_width r\<rfloor>
       \<and> int (off_height (capture cv r)) = \<lfloor>drag_height r\<rfloor>
       \<and> sw (off_draw (capture cv r)) = drag_width r * scaleX cv
       \<and> sh (off_draw (capture cv r)) = drag_height r * scaleY cv
       \<and> dw (off_draw (capture cv r)) = drag_width r
       \<and> dh (off_draw (capture cv r)) = drag_height r"
proof -
  have fw: "0 \<le> \<lfloor>drag_width r\<rfloor>" "\<lfloor>drag_width r\<rfloor> < 2 ^ 32"
    using w wb by (simp_all add: floor_less_iff)
  have fh: "0 \<le> \<lfloor>drag_height r\<rfloor>" "\<lfloor>drag_height r\<rfloor> < 2 ^ 32"
    using h hb by (simp_all add: floor_less_iff)
  have 1: "int (off_width (capture cv r)) = \<lfloor>drag_width r\<rfloor>"
    using w fw by (simp add: capture_def Let_def to_unsigned_long_def)
  have 2: "int (off_height (capture cv r)) = \<lfloor>drag_height r\<rfloor>"
    using h fh by (simp add: capture_def Let_def to_unsigned_long_def)
  have 3: "map (map_option sel_imageData) (snd (handleMouseUp toDataURL d s)) =
           [Some (after_comma (toDataURL (capture cv r)))]"
    using sel r page ctx w h by (simp add: handleMouseUp_def Let_def)
  show ?thesis
    using 1 2 3 by (simp add: capture_def Let_def)
qed

lemma wide_drag_facts:
  "isSelecting (dragging wide_drag)" "selectionRect (dragging wide_drag) = Some wide_drag"
  "pageRefs one_page (pageNum wide_drag) = Some (PageDiv (Some retina_canvas))"
  "context2d one_page" "drag_width wide_drag > 10" "drag_height wide_drag > 10"
  "drag_width wide_drag < 2 ^ 32" "drag_height wide_drag < 2 ^ 32"
  by (simp_all add: dragging_def wide_drag_def one_page_def drag_width_def drag_height_def)

theorem capture_dimensions_witness:
  "int (off_width (capture retina_canvas wide_drag)) = 20 \<and>
   int (off_height (capture retina_canvas wide_drag)) = 20 \<and>
   sw (off_draw (capture retina_canvas wide_drag)) = 40 \<and>
   sh (off_draw (capture retina_canvas wide_drag)) = 40"
  using capture_dimensions[OF wide_drag_facts, of png_stub]
  by (simp add: wide_drag_def drag_width_def drag_height_def scaleX_def scaleY_def
      retina_canvas_def)

text \<open>
  C6 as stated fails whenever a scale factor is not 1: a 20 by 20 rectangle on a canvas
  rendered at twice its displayed size gives an image 20 pixels wide, not 40.
\<close>

theorem capture_dimensions_counterexample:
  "drag_width wide_drag > 10 \<and> drag_height wide_drag > 10 \<and>
   int (off_width (capture retina_canvas wide_drag)) = 20 \<and>
   round (drag_width wide_drag * scaleX retina_canvas) = 40 \<and>
   int (off_width (capture retina_canvas wide_drag)) \<noteq>
     round (drag_width wide_drag * scaleX retina_canvas)"
  by (simp add: capture_def Let_def to_unsigned_long_def wide_drag_def drag_width_def
      drag_height_def scaleX_def retina_canvas_def)


subsection \<open>Classifying selected text\<close>

lemmas classifier_defs =
  match_symbol_def math_symbols_ignoring_case_def math_symbols_def match_power_def
  match_operation_def is_digit_def is_letter_def is_white_def is_operator_def
  is_exponent_marker_def

lemma isMath_integral: "isMath [0x222B, 0x66, 0x28, 0x78, 0x29, 0x64, 0x78]"
  by (simp add: match_symbol_def math_symbols_ignoring_case_def math_symbols_def)

lemma ascii_cat: "ascii ''The cat sat'' = [84, 104, 101, 32, 99, 97, 116, 32, 115, 97, 116]"
  by (simp add: ascii_def)

lemma isMath_cat: "\<not> isMath (ascii ''The cat sat'')"
  unfolding ascii_cat by (simp add: classifier_defs)

lemma ascii_eq: "ascii ''x = 5'' = [120, 32, 61, 32, 53]"
  by (simp add: ascii_def)

lemma isMath_equation: "isMath (ascii ''x = 5'')"
  unfolding ascii_eq by (simp add: classifier_defs)

lemma utrim_integral:
  "utrim [0x222B, 0x66, 0x28, 0x78, 0x29, 0x64, 0x78] = [0x222B, 0x66, 0x28, 0x78, 0x29, 0x64, 0x78]"
  by (simp add: utrim_def is_white_def)

lemma utrim_cat: "utrim (ascii ''The cat sat'') = ascii ''The cat sat''"
  unfolding ascii_cat by (simp add: utrim_def is_white_def)

lemma utrim_eq: "utrim (ascii ''x = 5'') = ascii ''x = 5''"
  unfolding ascii_eq by (simp add: utrim_def is_white_def)

lemma text_selection_emitted:
  "snd (handleTextSelection (Some t) s) =
     (if utrim t = [] then []
      else [Some \<lparr>sel_type = (if isMath (utrim t) then EquationSel else TextSel),
                  sel_content = utrim t, sel_pageNumber = 1,
                  sel_imageData = None, sel_rect = None\<rparr>])"
  by (simp add: handleTextSelection_def Let_def)

text \<open>
  C7. The selection emitted for a selected text depends on the text alone. The text
  \<open>\<integral>f(x)dx\<close> (its first character is the integral sign, code unit \<open>0x222B\<close>) is
  classified as an equation, \<open>The cat sat\<close> as text, \<open>x = 5\<close> as an equation; for the
  empty text and for a text that trims to nothing no selection is emitted and the state
  stays as it was.
\<close>

theorem text_selection_classified:
  "map (map_option sel_type)
     (snd (handleTextSelection (Some [0x222B, 0x66, 0x28, 0x78, 0x29, 0x64, 0x78]) s)) =
     [Some EquationSel]
   \<and> map (map_option sel_type) (snd (handleTextSelection (Some (ascii ''The cat sat'')) s)) =
     [Some TextSel]
   \<and> map (map_option sel_type) (snd (handleTextSelection (Some (ascii ''x = 5'')) s)) =
     [Some EquationSel]
   \<and> handleTextSelection (Some []) s = (s, [])
   \<and> (utrim t = [] \<longrightarrow> handleTextSelection (Some t) s = (s, []))
   \<and> snd (handleTextSelection (Some t) s) = snd (handleTextSelection (Some t) s2)
   \<and> (utrim t \<noteq> [] \<longrightarrow>
        map (map_option sel_type) (snd (handleTextSelection (Some t) s)) =
          [Some (if isMath (utrim t) then EquationSel else TextSel)])"
proof -
  have 1: "map (map_option sel_type)
     (snd (handleTextSelection (Some [0x222B, 0x66, 0x28, 0x78, 0x29, 0x64, 0x78]) s)) =
     [Some EquationSel]"
    unfolding text_selection_emitted utrim_integral using isMath_integral by simp
  have 2: "map (map_option sel_type) (snd (handleTextSelection (Some (ascii ''The cat sat'')) s)) =
     [Some TextSel]"
    unfolding text_selection_emitted utrim_cat using isMath_cat by (simp add: ascii_cat)
  have 3: "map (map_option sel_type) (snd (handleTextSelection (Some (ascii ''x = 5'')) s)) =
     [Some EquationSel]"
    unfolding text_selection_emitted utrim_eq using isMath_equation by (simp add: ascii_eq)
  have 4: "handleTextSelection (Some []) s = (s, [])"
    by (simp add: handleTextSelection_def utrim_def)
  have 5: "utrim t = [] \<longrightarrow> handleTextSelection (Some t) s = (s, [])"
    by (simp add: handleTextSelection_def)
  have 6: "snd (handleTextSelection (Some t) s) = snd (handleTextSelection (Some t) s2)"
    by (simp add: text_selection_emitted)
  have 7: "utrim t \<noteq> [] \<longrightarrow>
        map (map_option sel_type) (snd (handleTextSelection (Some t) s)) =
          [Some (if isMath (utrim t) then EquationSel else TextSel)]"
    by (simp add: text_selection_emitted)
  show ?thesis using 1 2 3 4 5 6 7 by blast
qed

theorem text_selection_classified_witness:
  "utrim (ascii ''  '') = [] \<and>
   handleTextSelection (Some (ascii ''  '')) (viewer_mount None) = (viewer_mount None, []) \<and>
   utrim (ascii '' x = 5 '') \<noteq> [] \<and>
   map (map_option sel_type)
     (snd (handleTextSelection (Some (ascii '' x = 5 '')) (viewer_mount None))) =
     [Some EquationSel]"
proof -
  have a: "utrim (ascii ''  '') = []"
    by (simp add: ascii_def utrim_def is_white_def)
  have b: "utrim (ascii '' x = 5 '') = [120, 32, 61, 32, 53]"
    by (simp add: ascii_def utrim_def is_white_def)
  have c: "isMath [120, 32, 61, 32, 53]"
    by (simp add: classifier_defs)
  from text_selection_classified[of "viewer_mount None" "ascii ''  ''" "viewer_mount None"]
       text_selection_classified[of "viewer_mount None" "ascii '' x = 5 ''" "viewer_mount None"]
  show ?thesis using a b c by simp
qed

subsection \<open>Persisting and restoring annotations\<close>

lemma annotations_setAnnotations: "annotations (setAnnotations f s) = f (annotations s)"
  by (simp add: setAnnotations_def save_effect_def)

lemma ann_storage_setAnnotations:
  "ann_storage (setAnnotations f s) =
     (if f (annotations s) \<noteq> [] then Some (f (annotations s)) else ann_storage s)"
  by (simp add: setAnnotations_def save_effect_def)

lemma annotations_mount:
  "annotations (viewer_mount saved) =
     (case saved of None \<Rightarrow> [] | Some stored \<Rightarrow> filter (\<lambda>a. ann_rect a \<noteq> None) stored)"
  by (simp add: viewer_mount_def annotations_setAnnotations split: option.splits)

lemma persisted_mount: "persisted (viewer_mount saved)"
  by (auto simp: persisted_def viewer_mount_def annotations_setAnnotations
      ann_storage_setAnnotations split: option.splits)

lemma annotate_not_creatable: "\<not> creatable c \<Longrightarrow> annotate s c = s\<lparr>selection := Some (c_selection c)\<rparr>"
  by (auto simp: annotate_def addAnnotation_def creatable_def split: option.splits)

lemma annotate_creatable:
  "creatable c \<Longrightarrow>
   annotate s c = (setAnnotations (\<lambda>prev. prev @ [created_record c])
       (s\<lparr>selection := Some (c_selection c)\<rparr>))\<lparr>selection := None\<rparr>"
  by (auto simp: annotate_def addAnnotation_def creatable_def created_record_def Let_def
      split: option.splits)

lemma annotations_annotate:
  "annotations (annotate s c) = annotations s @ (if creatable c then [created_record c] else [])"
  by (simp add: annotate_not_creatable annotate_creatable annotations_setAnnotations)

lemma persisted_annotate:
  assumes "persisted s"
  shows "persisted (annotate s c)"
proof (cases "creatable c")
  case False
  then show ?thesis
    using assms by (simp add: annotate_not_creatable persisted_def split: option.splits)
next
  case True
  have r: "ann_rect (created_record c) \<noteq> None"
    using True by (simp add: creatable_def created_record_def)
  have all: "\<forall>a \<in> set (annotations s). ann_rect a \<noteq> None"
    using assms by (simp add: persisted_def)
  then have "filter (\<lambda>a. ann_rect a \<noteq> None) (annotations s) = annotations s"
    by (simp add: filter_id_conv)
  then show ?thesis
    using True r all
    by (simp add: annotate_creatable persisted_def annotations_setAnnotations
        ann_storage_setAnnotations)
qed

lemma annotations_annotate_all:
  "annotations (annotate_all s cs) = annotations s @ map created_record (filter creatable cs)"
  by (induction cs arbitrary: s) (simp_all add: annotations_annotate)

lemma persisted_annotate_all: "persisted s \<Longrightarrow> persisted (annotate_all s cs)"
  by (induction cs arbitrary: s) (simp_all add: persisted_annotate)

lemma persisted_reload: "persisted s \<Longrightarrow> annotations (viewer_mount (ann_storage s)) = annotations s"
  by (auto simp: persisted_def annotations_mount split: option.splits)

text \<open>
  C8. In a viewer restored from any storage, creating annotations one after the other
  appends their records in order, with the fields they were created with; a creation
  whose selection has no rectangle adds nothing. A reload then restores exactly the
  list that was in memory, in the same order and with the same fields. Restoring
  discards every stored record that lacks a rectangle and keeps the others.
\<close>

theorem annotation_round_trip:
  "annotations (annotate_all (viewer_mount saved) cs) =
     annotations (viewer_mount saved) @ map created_record (filter creatable cs)
   \<and> annotations (viewer_mount (ann_storage (annotate_all (viewer_mount saved) cs))) =
     annotations (annotate_all (viewer_mount saved) cs)
   \<and> annotations (viewer_mount (Some stored)) = filter (\<lambda>a. ann_rect a \<noteq> None) stored
   \<and> annotations (viewer_mount None) = []"
  using persisted_reload[OF persisted_annotate_all[OF persisted_mount], of saved cs]
  by (simp add: annotations_annotate_all annotations_mount)


lemma two_created:
  "filter creatable two_creations = [two_creations ! 0, two_creations ! 2]"
  by (simp add: two_creations_def creatable_def region_selection_def text_selection_def)

theorem annotation_round_trip_witness:
  "map ann_id (annotations (viewer_mount (ann_storage
      (annotate_all (viewer_mount (Some [old_record])) two_creations)))) = [''1700'', ''1900'']
   \<and> annotations (viewer_mount (ann_storage
      (annotate_all (viewer_mount (Some [old_record])) two_creations))) =
     map created_record [two_creations ! 0, two_creations ! 2]"
proof -
  have "map ann_id (map created_record [two_creations ! 0, two_creations ! 2]) = [''1700'', ''1900'']"
    by (simp add: two_creations_def created_record_def string_of_nat.simps digit_char_def)
  then show ?thesis
    using annotation_round_trip[of "Some [old_record]" two_creations "[old_record]"]
    by (simp add: two_created old_record_def)
qed

section \<open>Properties of the document registry\<close>

lemma map_of_rest_without:
  "map_of (rest_without key r) k = (if k = key then None else map_of r k)"
  by (induction r) (auto simp: rest_without_def)

text \<open>
  C9. \<open>getAll\<close> returns one record for each stored PDF, in the order of storage. A
  returned record has no \<open>file_data\<close> property, and every other property of the stored
  record (its id, name, status and time stamps) with the same value.
\<close>

theorem getAll_omits_file_data:
  "length (getAll f) = length (db_pdfs (loadDb f)) \<and>
   (\<forall>i < length (db_pdfs (loadDb f)).
      map_of (getAll f ! i) ''file_data'' = None \<and>
      (\<forall>k. k \<noteq> ''file_data'' \<longrightarrow> map_of (getAll f ! i) k = map_of (db_pdfs (loadDb f) ! i) k))"
  by (simp add: getAll_def map_of_rest_without)

lemma two_pdfs_rows:
  "db_pdfs (loadDb two_pdfs) =
     [[(''id'', JNumber 1), (''name'', JString ''a.pdf''), (''file_data'', JString ''JVBERi0x''),
       (''status'', JString ''none''), (''uploaded_at'', JString ''2024-01-01''),
       (''updated_at'', JString ''2024-01-01'')],
      [(''id'', JNumber 2), (''name'', JString ''b.pdf''), (''file_data'', JString ''JVBERi0y''),
       (''status'', JString ''none''), (''uploaded_at'', JString ''2024-01-02''),
       (''updated_at'', JString ''2024-01-02'')]]"
  by (simp add: two_pdfs_def pdf_create_def loadDb_def Let_def)

theorem getAll_omits_file_data_witness:
  "length (getAll two_pdfs) = 2 \<and>
   map_of (getAll two_pdfs ! 1) ''file_data'' = None \<and>
   map_of (getAll two_pdfs ! 1) ''id'' = Some (JNumber 2) \<and>
   map_of (getAll two_pdfs ! 1) ''name'' = Some (JString ''b.pdf'') \<and>
   map_of (getAll two_pdfs ! 1) ''status'' = Some (JString ''none'') \<and>
   map_of (getAll two_pdfs ! 1) ''uploaded_at'' = Some (JString ''2024-01-02'') \<and>
   map_of (getAll two_pdfs ! 1) ''updated_at'' = Some (JString ''2024-01-02'')"
proof -
  have i: "1 < length (db_pdfs (loadDb two_pdfs))"
    by (simp add: two_pdfs_rows)
  from getAll_omits_file_data[of two_pdfs] i
  have "length (getAll two_pdfs) = length (db_pdfs (loadDb two_pdfs))"
    and "map_of (getAll two_pdfs ! 1) ''file_data'' = None"
    and "\<And>k. k \<noteq> ''file_data'' \<Longrightarrow>
           map_of (getAll two_pdfs ! 1) k = map_of (db_pdfs (loadDb two_pdfs) ! 1) k"
    by blast+
  then show ?thesis
    by (simp add: two_pdfs_rows)
qed


end
